theory Spec2Isabelle
  imports Main
begin

section \<open>Package gcfg: configuration resolution and caching\<close>

text \<open>
  The embedded source is the file of package \<open>gcfg\<close> that declares \<open>Config\<close>, \<open>New\<close>,
  \<open>getSearchPaths\<close>, \<open>filePath\<close>, \<open>SetPath\<close>, \<open>AddPath\<close>, \<open>FilePath\<close> and \<open>getJson\<close>.
  Everything that file imports (gres, gfile, gspath, gstr, gjson, gfsnotify, glog, gcmd,
  garray, gmap) is outside the embedded sources. The collaborators that talk to the
  operating system or to a parser are parameters, gathered in the record \<open>env\<close>; the two
  containers (a string array and a string-keyed map) are a list and a partial map.
\<close>

subsection \<open>Collaborators\<close>

text \<open>A hit of the resource overlay: \<open>file.Name()\<close>, \<open>file.FileInfo().IsDir()\<close>, \<open>file.Content()\<close>.\<close>

record gresFile =
  gf_Name :: string
  gf_IsDir :: bool
  gf_Content :: string

text \<open>
  The errors the package builds itself carry the operation (\<open>SetPath\<close> or \<open>AddPath\<close>), the
  path argument and, for the first, the search paths listed in the message. An error
  handed back by a collaborator (parser, watcher) is kept as its text.
\<close>

datatype error =
    CannotFindDirectory string string "string list"
  | PathDoesNotExist string string
  | ShouldBeDirectory string string
  | CollaboratorError string

record 'd env =
  gres_Get :: "string \<Rightarrow> gresFile option"
  gres_IsEmpty :: bool
  gfile_RealPath :: "string \<Rightarrow> string"
  gfile_IsDir :: "string \<Rightarrow> bool"
  gfile_Exists :: "string \<Rightarrow> bool"
  gfile_MainPkgPath :: string
  gfile_SelfDir :: string
  gfile_Pwd :: string
  gfile_GetContents :: "string \<Rightarrow> string"
  gfile_ExtName :: "string \<Rightarrow> string"
  gfile_Separator :: string
  gspath_Search :: "string \<Rightarrow> string \<Rightarrow> string"
  gstr_TrimRight :: "string \<Rightarrow> string \<Rightarrow> string"
  GetContent :: "string \<Rightarrow> string"
  gjson_IsValidDataType :: "string \<Rightarrow> bool"
  gjson_LoadContentType :: "string \<Rightarrow> string \<Rightarrow> bool \<Rightarrow> error + 'd"
  gjson_LoadContent :: "string \<Rightarrow> bool \<Rightarrow> error + 'd"
  gfsnotify_Add :: "string \<Rightarrow> error option"
  gcmd_GetOptWithEnv :: "string \<Rightarrow> string"
  errorPrint :: bool

text \<open>
  Modelled from the spec: \<open>gres.Contains\<close> is not in the embedded sources; the overlay
  interface of the spec is \<open>get(path) -> file-or-nil\<close> and \<open>contains(path) -> bool\<close>, so a
  path is contained when \<open>get\<close> hits.
\<close>

definition gres_Contains :: "'d env \<Rightarrow> string \<Rightarrow> bool" where
  "gres_Contains env path = (gres_Get env path \<noteq> None)"

text \<open>
  Modelled from the spec: \<open>garray.StrArray\<close> and \<open>gstr.InArray\<close> are not in the embedded
  sources. The search path set of the spec is an ordered sequence that rejects
  duplicates by looking the new entry up: \<open>Search\<close> is the linear search, returning the
  index of the first equal element or \<open>-1\<close>, and \<open>InArray\<close> is membership in a slice.
  \<open>Len\<close>, \<open>Append\<close>, \<open>Clear\<close> and \<open>Slice\<close> are the list operations of the same names.
\<close>

fun garray_Search :: "string list \<Rightarrow> string \<Rightarrow> int" where
  "garray_Search [] v = -1"
| "garray_Search (x # xs) v =
     (if x = v then 0
      else (let r = garray_Search xs v in if r = -1 then -1 else r + 1))"

definition gstr_InArray :: "string list \<Rightarrow> string \<Rightarrow> bool" where
  "gstr_InArray a s = (s \<in> set a)"

subsection \<open>The configuration object and the effects around it\<close>

text \<open>A parsed document (\<open>*gjson.Json\<close>): the tree the parser built and its violence-check flag.\<close>

record 'd Json =
  j_data :: 'd
  j_violenceCheck :: bool

record 'd Config =
  defaultName :: string
  searchPaths :: "string list"
  jsonMap :: "string \<rightharpoonup> 'd Json"
  violenceCheck :: bool

text \<open>
  What the package writes outside the \<open>Config\<close>: lines of the process logger (\<open>glog\<close>),
  lines of the internal debug log (\<open>intlog\<close>) and watches registered with \<open>gfsnotify\<close>.
  The callback of a watch is the closure \<open>c.jsonMap.Remove(name)\<close>; it is kept as the
  name it captured.
\<close>

datatype logentry =
    GlogError error
  | GlogCannotFindConfigFile string "string list"
  | GlogNoPathSet string
  | GlogConfigDirNotExist string
  | GlogLoadConfigFileFailed string error
  | GlogLoadConfigurationFailed error

datatype callback = RemoveName string

record world =
  glog :: "logentry list"
  intlog :: "(string \<times> string) list"
  watches :: "(string \<times> callback) list"

definition glog_Error :: "'d env \<Rightarrow> logentry \<Rightarrow> world \<Rightarrow> world" where
  "glog_Error env e w = (if errorPrint env then w\<lparr>glog := glog w @ [e]\<rparr> else w)"

definition DefaultConfigFile :: string where
  "DefaultConfigFile = ''config.toml''"

definition cmdEnvKey :: string where
  "cmdEnvKey = ''gf.gcfg''"

definition supportedFileTypes :: "string list" where
  "supportedFileTypes = [''toml'', ''yaml'', ''json'', ''ini'', ''xml'']"

definition resourceTryFiles :: "string list" where
  "resourceTryFiles = ['''', ''/'', ''config/'', ''config'', ''/config'', ''/config/'']"

subsection \<open>Path management: SetPath and AddPath\<close>

text \<open>
  The relative lookup inside \<open>RLockFunc\<close>: the first search path under which
  \<open>gspath.Search\<close> finds the argument.
\<close>

fun searchRelative :: "'d env \<Rightarrow> string list \<Rightarrow> string \<Rightarrow> string" where
  "searchRelative env [] path = ''''"
| "searchRelative env (v # array) path =
     (let p = gspath_Search env v path in
      if p \<noteq> '''' then p else searchRelative env array path)"

text \<open>
  The resolution both operations start with (the same statements in each): the overlay
  first, then the absolute path, then the relative lookup; returns \<open>(realPath, isDir)\<close>.
\<close>

definition resolvePath :: "'d env \<Rightarrow> 'd Config \<Rightarrow> string \<Rightarrow> string \<times> bool" where
  "resolvePath env c path =
     (case gres_Get env path of
        Some file \<Rightarrow> (path, gf_IsDir file)
      | None \<Rightarrow>
          (let absPath = gfile_RealPath env path;
               realPath = (if absPath = '''' then searchRelative env (searchPaths c) path
                           else absPath)
           in (realPath, if realPath \<noteq> '''' then gfile_IsDir env realPath else False)))"

definition notFoundError :: "string \<Rightarrow> 'd Config \<Rightarrow> string \<Rightarrow> error" where
  "notFoundError opname c path =
     (if length (searchPaths c) > 0 then CannotFindDirectory opname path (searchPaths c)
      else PathDoesNotExist opname path)"

definition SetPath ::
  "'d env \<Rightarrow> string \<Rightarrow> 'd Config \<Rightarrow> world \<Rightarrow> error option \<times> 'd Config \<times> world" where
  "SetPath env path c w =
     (let (realPath, isDir) = resolvePath env c path in
      if realPath = '''' then
        (let err = notFoundError ''SetPath'' c path
         in (Some err, c, glog_Error env (GlogError err) w))
      else if \<not> isDir then
        (let err = ShouldBeDirectory ''SetPath'' path
         in (Some err, c, glog_Error env (GlogError err) w))
      else if garray_Search (searchPaths c) realPath \<noteq> -1 then (None, c, w)
      else (None,
            c\<lparr>jsonMap := Map.empty, searchPaths := [realPath]\<rparr>,
            w\<lparr>intlog := intlog w @ [(''SetPath:'', realPath)]\<rparr>))"

definition AddPath ::
  "'d env \<Rightarrow> string \<Rightarrow> 'd Config \<Rightarrow> world \<Rightarrow> error option \<times> 'd Config \<times> world" where
  "AddPath env path c w =
     (let (realPath, isDir) = resolvePath env c path in
      if realPath = '''' then
        (let err = notFoundError ''AddPath'' c path
         in (Some err, c, glog_Error env (GlogError err) w))
      else if \<not> isDir then
        (let err = ShouldBeDirectory ''AddPath'' path
         in (Some err, c, glog_Error env (GlogError err) w))
      else if garray_Search (searchPaths c) realPath \<noteq> -1 then (None, c, w)
      else (None,
            c\<lparr>searchPaths := searchPaths c @ [realPath]\<rparr>,
            w\<lparr>intlog := intlog w @ [(''AddPath:'', realPath)]\<rparr>))"

subsection \<open>Resolution: getSearchPaths and FilePath\<close>

definition getSearchPaths :: "'d env \<Rightarrow> 'd Config \<Rightarrow> string list" where
  "getSearchPaths env c =
     (let paths = searchPaths c;
          mainPkgPath = gfile_MainPkgPath env
      in if mainPkgPath \<noteq> '''' then
           (if \<not> gstr_InArray paths mainPkgPath then mainPkgPath # paths else paths)
         else paths)"

text \<open>The cut set of the call \<open>gstr.TrimRight(prefix, ...)\<close>: the backslash and the slash.\<close>

definition trimCutset :: string where
  "trimCutset = [CHR 0x5C, CHR ''/'']"

text \<open>
  The inner loop over \<open>resourceTryFiles\<close>: the first \<open>v\<close> for which the overlay holds
  \<open>prefix + v + name\<close>. The first loop of \<open>FilePath\<close> is the case of the empty prefix.
\<close>

fun tryResource :: "'d env \<Rightarrow> string \<Rightarrow> string list \<Rightarrow> string \<Rightarrow> gresFile option" where
  "tryResource env prefix [] name = None"
| "tryResource env prefix (v # vs) name =
     (case gres_Get env (prefix @ v @ name) of
        Some file \<Rightarrow> Some file
      | None \<Rightarrow> tryResource env prefix vs name)"

fun tryResourcePaths :: "'d env \<Rightarrow> string list \<Rightarrow> string \<Rightarrow> gresFile option" where
  "tryResourcePaths env [] name = None"
| "tryResourcePaths env (prefix # rest) name =
     (case tryResource env prefix resourceTryFiles name of
        Some file \<Rightarrow> Some file
      | None \<Rightarrow> tryResourcePaths env rest name)"

definition overlayProbe :: "'d env \<Rightarrow> string list \<Rightarrow> string \<Rightarrow> gresFile option" where
  "overlayProbe env paths name =
     (case tryResource env '''' resourceTryFiles name of
        Some file \<Rightarrow> Some file
      | None \<Rightarrow> tryResourcePaths env paths name)"

text \<open>
  One round of the file-system loop: the directory itself, then its \<open>config\<close>
  subdirectory. The result is the value of \<open>path\<close> after the round.
\<close>

definition searchDir :: "'d env \<Rightarrow> string \<Rightarrow> string \<Rightarrow> string" where
  "searchDir env prefix name =
     (let p = gstr_TrimRight env prefix trimCutset;
          path = gspath_Search env p name
      in if path \<noteq> '''' then path
         else gspath_Search env (p @ gfile_Separator env @ ''config'') name)"

fun searchFileSystem :: "'d env \<Rightarrow> string list \<Rightarrow> string \<Rightarrow> string" where
  "searchFileSystem env [] name = ''''"
| "searchFileSystem env (prefix # rest) name =
     (let path = searchDir env prefix name in
      if path \<noteq> '''' then path else searchFileSystem env rest name)"

text \<open>The variadic \<open>file ...string\<close> is a list; only its first element is read.\<close>

definition FilePath :: "'d env \<Rightarrow> 'd Config \<Rightarrow> string list \<Rightarrow> string" where
  "FilePath env c file =
     (let name = (case file of [] \<Rightarrow> defaultName c | f # _ \<Rightarrow> f);
          paths = getSearchPaths env c
      in if \<not> gres_IsEmpty env then
           (case overlayProbe env paths name of
              Some hit \<Rightarrow> gf_Name hit
            | None \<Rightarrow> searchFileSystem env paths name)
         else searchFileSystem env paths name)"

text \<open>
  \<open>filePath\<close> is \<open>FilePath\<close> with the report of a miss: the numbered lines of the
  message are the elements of the list, in order.
\<close>

definition missReport :: "'d env \<Rightarrow> string list \<Rightarrow> string list" where
  "missReport env paths =
     concat (map (\<lambda>v. (let t = gstr_TrimRight env v trimCutset
                       in [t, t @ gfile_Separator env @ ''config''])) paths)"

definition filePath :: "'d env \<Rightarrow> 'd Config \<Rightarrow> string list \<Rightarrow> world \<Rightarrow> string \<times> world" where
  "filePath env c file w =
     (let name = (case file of [] \<Rightarrow> defaultName c | f # _ \<Rightarrow> f);
          path = FilePath env c [name]
      in if path = '''' then
           (let paths = getSearchPaths env c;
                line = (if length paths > 0
                        then GlogCannotFindConfigFile name (missReport env paths)
                        else GlogNoPathSet name)
            in (path, glog_Error env line w))
         else (path, w))"

subsection \<open>The document cache: getJson\<close>

text \<open>
  Modelled from the spec: \<open>gmap.StrAnyMap.GetOrSetFuncLock\<close> is not in the embedded
  sources. After the spec's DocumentCache contract \<open>getOrCompute(name, computeFn)\<close>: a
  cached value is returned without computing; otherwise the compute step runs once, and
  its result is stored only when it is a value; absence (nil) is returned and not stored.
  The last argument is the state the compute step works on.
\<close>

definition GetOrSetFuncLock ::
  "(string \<rightharpoonup> 'v) \<Rightarrow> string \<Rightarrow> ('s \<Rightarrow> 'v option \<times> 's) \<Rightarrow> 's
     \<Rightarrow> 'v option \<times> (string \<rightharpoonup> 'v) \<times> 's" where
  "GetOrSetFuncLock m key f s =
     (case m key of
        Some v \<Rightarrow> (Some v, m, s)
      | None \<Rightarrow>
          (case f s of
             (None, s') \<Rightarrow> (None, m, s')
           | (Some v, s') \<Rightarrow> (Some v, m(key \<mapsto> v), s')))"

text \<open>
  The closure passed to the cache, in three pieces. Reading the content of a resolved
  path: from the overlay when it holds the path, else from the file system.
\<close>

definition readContent :: "'d env \<Rightarrow> string \<Rightarrow> string" where
  "readContent env fp =
     (case gres_Get env fp of
        Some file \<Rightarrow> gf_Content file
      | None \<Rightarrow> gfile_GetContents env fp)"

text \<open>Parser dispatch on the extension of the name.\<close>

definition loadDocument :: "'d env \<Rightarrow> string \<Rightarrow> string \<Rightarrow> bool \<Rightarrow> error + 'd" where
  "loadDocument env name content isFromConfigContent =
     (let dataType = gfile_ExtName env name in
      if gjson_IsValidDataType env dataType \<and> \<not> isFromConfigContent
      then gjson_LoadContentType env dataType content True
      else gjson_LoadContent env content True)"

text \<open>
  The second half of the closure: the parse, then the watch on success or the report on
  failure. \<open>fp\<close> is the variable \<open>filePath\<close> (empty for inline content).
\<close>

definition loadAndWatch ::
  "'d env \<Rightarrow> 'd Config \<Rightarrow> string \<Rightarrow> string \<Rightarrow> string \<Rightarrow> bool \<Rightarrow> world
     \<Rightarrow> 'd Json option \<times> world" where
  "loadAndWatch env c name content fp isFromConfigContent w =
     (case loadDocument env name content isFromConfigContent of
        Inr d \<Rightarrow>
          (let j = \<lparr>j_data = d, j_violenceCheck = violenceCheck c\<rparr> in
           if fp \<noteq> '''' \<and> \<not> gres_Contains env fp then
             (case gfsnotify_Add env fp of
                None \<Rightarrow> (Some j, w\<lparr>watches := watches w @ [(fp, RemoveName name)]\<rparr>)
              | Some err \<Rightarrow> (Some j, glog_Error env (GlogError err) w))
           else (Some j, w))
      | Inl err \<Rightarrow>
          (None,
           glog_Error env
             (if fp \<noteq> '''' then GlogLoadConfigFileFailed fp err
              else GlogLoadConfigurationFailed err) w))"

text \<open>The closure passed to the cache (the compute step) for one name.\<close>

definition getJson_compute ::
  "'d env \<Rightarrow> 'd Config \<Rightarrow> string \<Rightarrow> world \<Rightarrow> 'd Json option \<times> world" where
  "getJson_compute env c name w =
     (let inline = GetContent env name in
      if inline = '''' then
        (case filePath env c [name] w of
           (fp, w1) \<Rightarrow>
             if fp = '''' then (None, w1)
             else loadAndWatch env c name (readContent env fp) fp False w1)
      else loadAndWatch env c name inline '''' True w)"

definition getJson_name :: "'d Config \<Rightarrow> string list \<Rightarrow> string" where
  "getJson_name c file =
     (case file of
        [] \<Rightarrow> defaultName c
      | f # _ \<Rightarrow> if f \<noteq> '''' then f else defaultName c)"

definition getJson ::
  "'d env \<Rightarrow> string list \<Rightarrow> 'd Config \<Rightarrow> world \<Rightarrow> 'd Json option \<times> 'd Config \<times> world" where
  "getJson env file c w =
     (let name = getJson_name c file in
      case GetOrSetFuncLock (jsonMap c) name (getJson_compute env c name) w of
        (r, m, w') \<Rightarrow> (r, c\<lparr>jsonMap := m\<rparr>, w'))"

text \<open>Delivery of a change event to a registered callback: \<open>c.jsonMap.Remove(name)\<close>.\<close>

fun runCallback :: "callback \<Rightarrow> 'd Config \<Rightarrow> 'd Config" where
  "runCallback (RemoveName name) c = c\<lparr>jsonMap := (jsonMap c)(name := None)\<rparr>"

subsection \<open>Construction: New\<close>

text \<open>The branch of \<open>New\<close> for no custom path: main package, binary, working directory.\<close>

definition defaultPaths :: "'d env \<Rightarrow> 'd Config \<Rightarrow> world \<Rightarrow> 'd Config \<times> world" where
  "defaultPaths env c w =
     (let mainPath = gfile_MainPkgPath env;
          s1 = (if mainPath \<noteq> '''' \<and> gfile_Exists env mainPath
                then snd (AddPath env mainPath c w) else (c, w));
          selfPath = gfile_SelfDir env;
          s2 = (if selfPath \<noteq> '''' \<and> gfile_Exists env selfPath
                then snd (AddPath env selfPath (fst s1) (snd s1)) else s1)
      in snd (AddPath env (gfile_Pwd env) (fst s2) (snd s2)))"

text \<open>The object \<open>New\<close> starts from: the default name, no search path, an empty cache.\<close>

definition initialConfig :: "'d env \<Rightarrow> string list \<Rightarrow> 'd Config" where
  "initialConfig env file =
     (let name = (case file of
                    f # _ \<Rightarrow> f
                  | [] \<Rightarrow>
                      (let customFile = gcmd_GetOptWithEnv env (cmdEnvKey @ ''.file'')
                       in if customFile \<noteq> '''' then customFile else DefaultConfigFile))
      in \<lparr>defaultName = name, searchPaths = [], jsonMap = Map.empty,
          violenceCheck = False\<rparr>)"

definition New :: "'d env \<Rightarrow> string list \<Rightarrow> world \<Rightarrow> 'd Config \<times> world" where
  "New env file w =
     (let c = initialConfig env file;
          customPath = gcmd_GetOptWithEnv env (cmdEnvKey @ ''.path'')
      in if customPath \<noteq> '''' then
           (if gfile_Exists env customPath then snd (SetPath env customPath c w)
            else (c, glog_Error env (GlogConfigDirNotExist customPath) w))
         else defaultPaths env c w)"

subsection \<open>Sequences of path operations\<close>

datatype pathcmd = CmdAddPath string | CmdSetPath string

text \<open>Each operation runs in the environment it finds: the file system may change between calls.\<close>

fun runPathCmd :: "'d env \<times> pathcmd \<Rightarrow> 'd Config \<times> world \<Rightarrow> 'd Config \<times> world" where
  "runPathCmd (env, CmdAddPath path) (c, w) = snd (AddPath env path c w)"
| "runPathCmd (env, CmdSetPath path) (c, w) = snd (SetPath env path c w)"

fun runPathCmds :: "('d env \<times> pathcmd) list \<Rightarrow> 'd Config \<times> world \<Rightarrow> 'd Config \<times> world" where
  "runPathCmds [] s = s"
| "runPathCmds (x # xs) s = runPathCmds xs (runPathCmd x s)"

definition pathSetOk :: "'d Config \<Rightarrow> bool" where
  "pathSetOk c = (distinct (searchPaths c) \<and> '''' \<notin> set (searchPaths c))"

subsection \<open>The resolution order in the words of the specification\<close>

text \<open>
  The search directories: the search path set, with the main package directory put in
  front when it is not empty and not already a member. The overlay candidates in
  probing order: the name under each of the six prefixes, then the same six under
  every search directory. The file-system candidates in probing order: every search
  directory with trailing separators (backslash and slash) trimmed, followed by its
  \<open>config\<close> subdirectory. The result is the first hit of the overlay (when the overlay
  is not empty), else the first hit of the file system, else the empty string.
\<close>

definition specSearchDirs :: "string \<Rightarrow> string list \<Rightarrow> string list" where
  "specSearchDirs mainPkg dirs =
     (if mainPkg \<noteq> [] \<and> mainPkg \<notin> set dirs then mainPkg # dirs else dirs)"

definition specSeparators :: string where
  "specSeparators = [CHR 0x5C, CHR 0x2F]"

definition specPrefixes :: "string list" where
  "specPrefixes = ['''', ''/'', ''config/'', ''config'', ''/config'', ''/config/'']"

definition specOverlayCandidates :: "string list \<Rightarrow> string \<Rightarrow> string list" where
  "specOverlayCandidates dirs name =
     map (\<lambda>v. v @ name) specPrefixes
     @ concat (map (\<lambda>d. map (\<lambda>v. d @ v @ name) specPrefixes) dirs)"

definition specFsCandidates :: "'d env \<Rightarrow> string list \<Rightarrow> string list" where
  "specFsCandidates env dirs =
     concat (map (\<lambda>d. [gstr_TrimRight env d specSeparators,
                       gstr_TrimRight env d specSeparators @ gfile_Separator env @ ''config''])
                 dirs)"

definition specResolve :: "'d env \<Rightarrow> string list \<Rightarrow> string \<Rightarrow> string" where
  "specResolve env dirs name =
     (let overlayHits = (if gres_IsEmpty env then []
                         else List.map_filter (gres_Get env) (specOverlayCandidates dirs name));
          fsHits = filter (\<lambda>p. p \<noteq> '''')
                     (map (\<lambda>root. gspath_Search env root name) (specFsCandidates env dirs))
      in case overlayHits of
           hit # _ \<Rightarrow> gf_Name hit
         | [] \<Rightarrow> (case fsHits of p # _ \<Rightarrow> p | [] \<Rightarrow> ''''))"

subsection \<open>An in-memory environment for concrete runs\<close>

text \<open>
  A file system given by its directories and its files with their contents, no overlay,
  no inline content, no command-line options, a watcher that accepts every path, and
  parsers that record which of them ran: the typed parser answers \<open>type:content\<close>, the
  generic one \<open>auto:content\<close>, and both reject the content \<open>bad\<close>.
\<close>

definition memTrimRight :: "string \<Rightarrow> string \<Rightarrow> string" where
  "memTrimRight s cs = rev (dropWhile (\<lambda>ch. ch \<in> set cs) (rev s))"

definition memExtName :: "string \<Rightarrow> string" where
  "memExtName name =
     (if CHR ''.'' \<in> set name then rev (takeWhile (\<lambda>ch. ch \<noteq> CHR ''.'') (rev name)) else '''')"

definition memExists :: "string list \<Rightarrow> (string \<times> string) list \<Rightarrow> string \<Rightarrow> bool" where
  "memExists dirs files p = (p \<in> set dirs \<or> map_of files p \<noteq> None)"

definition memEnv :: "string list \<Rightarrow> (string \<times> string) list \<Rightarrow> string env" where
  "memEnv dirs files =
     \<lparr>gres_Get = (\<lambda>p. None),
      gres_IsEmpty = True,
      gfile_RealPath = (\<lambda>p. if memExists dirs files p then p else ''''),
      gfile_IsDir = (\<lambda>p. p \<in> set dirs),
      gfile_Exists = memExists dirs files,
      gfile_MainPkgPath = '''',
      gfile_SelfDir = '''',
      gfile_Pwd = '''',
      gfile_GetContents = (\<lambda>p. case map_of files p of Some s \<Rightarrow> s | None \<Rightarrow> ''''),
      gfile_ExtName = memExtName,
      gfile_Separator = ''/'',
      gspath_Search = (\<lambda>root name.
         if memExists dirs files (root @ ''/'' @ name) then root @ ''/'' @ name else ''''),
      gstr_TrimRight = memTrimRight,
      GetContent = (\<lambda>n. ''''),
      gjson_IsValidDataType =
        (\<lambda>t. t \<in> set [''json'', ''js'', ''xml'', ''yaml'', ''yml'', ''toml'', ''ini'']),
      gjson_LoadContentType = (\<lambda>t content safe.
         if content = ''bad'' then Inl (CollaboratorError ''parse'')
         else Inr (t @ '':'' @ content)),
      gjson_LoadContent = (\<lambda>content safe.
         if content = ''bad'' then Inl (CollaboratorError ''parse'')
         else Inr (''auto:'' @ content)),
      gfsnotify_Add = (\<lambda>p. None),
      gcmd_GetOptWithEnv = (\<lambda>k. ''''),
      errorPrint = True\<rparr>"

definition fsDirs :: "string list" where
  "fsDirs = [''/a'', ''/b'', ''/m'', ''/w'', ''/a/sub'']"

definition fsFiles :: "(string \<times> string) list" where
  "fsFiles = [(''/a/app.json'', ''{a}''), (''/b/app.json'', ''{b}''),
              (''/m/app.json'', ''{m}''), (''/a/notes.txt'', ''x''),
              (''/a/broken.json'', ''bad'')]"

definition envFS :: "string env" where
  "envFS = memEnv fsDirs fsFiles"

text \<open>The same file system after \<open>/a/broken.json\<close> has been repaired.\<close>

definition envFixed :: "string env" where
  "envFixed = memEnv fsDirs ((''/a/broken.json'', ''{ok}'') # fsFiles)"

text \<open>The same file system, seen from a binary whose main package directory is \<open>/m\<close>.\<close>

definition envMain :: "string env" where
  "envMain = envFS\<lparr>gfile_MainPkgPath := ''/m''\<rparr>"

text \<open>An overlay holding \<open>config/app.json\<close> in front of the same file system.\<close>

definition envOverlay :: "string env" where
  "envOverlay = envFS
     \<lparr>gres_Get := (\<lambda>p. if p = ''config/app.json''
                         then Some \<lparr>gf_Name = ''config/app.json'', gf_IsDir = False,
                                    gf_Content = ''{r}''\<rparr>
                         else None),
      gres_IsEmpty := False\<rparr>"

text \<open>Inline content registered under the name \<open>inline.json\<close>, in front of the same file system.\<close>

definition envInline :: "string env" where
  "envInline = envFS\<lparr>GetContent := (\<lambda>n. if n = ''inline.json'' then ''{i}'' else '''')\<rparr>"

text \<open>A watcher that refuses every path, with error printing on and off.\<close>

definition envNoWatch :: "string env" where
  "envNoWatch = envFS\<lparr>gfsnotify_Add := (\<lambda>p. Some (CollaboratorError ''watch''))\<rparr>"

definition envNoWatchQuiet :: "string env" where
  "envNoWatchQuiet = envNoWatch\<lparr>errorPrint := False\<rparr>"

text \<open>
  A process started in \<open>/w\<close>; then with the option \<open>gf.gcfg.path\<close> naming a path that
  does not exist, and with the option naming a file.
\<close>

definition envStartW :: "string env" where
  "envStartW = envFS\<lparr>gfile_Pwd := ''/w''\<rparr>"

definition envCustomMissing :: "string env" where
  "envCustomMissing = envStartW
     \<lparr>gcmd_GetOptWithEnv := (\<lambda>k. if k = ''gf.gcfg.path'' then ''/nope'' else '''')\<rparr>"

definition envCustomFile :: "string env" where
  "envCustomFile = envStartW
     \<lparr>gcmd_GetOptWithEnv := (\<lambda>k. if k = ''gf.gcfg.path'' then ''/a/notes.txt'' else '''')\<rparr>"

definition w0 :: world where
  "w0 = \<lparr>glog = [], intlog = [], watches = []\<rparr>"

definition oldDoc :: "string Json" where
  "oldDoc = \<lparr>j_data = ''json:{old}'', j_violenceCheck = False\<rparr>"

definition cEmpty :: "string Config" where
  "cEmpty = \<lparr>defaultName = ''config.toml'', searchPaths = [], jsonMap = Map.empty,
             violenceCheck = False\<rparr>"

definition cA :: "string Config" where
  "cA = cEmpty\<lparr>searchPaths := [''/a'']\<rparr>"

definition cAB :: "string Config" where
  "cAB = cEmpty\<lparr>searchPaths := [''/a'', ''/b''], jsonMap := [''app.json'' \<mapsto> oldDoc]\<rparr>"

subsection \<open>Helper facts\<close>

lemma garray_Search_ge: "garray_Search xs v \<ge> -1"
  by (induction xs) (auto simp: Let_def)

lemma garray_Search_member: "(garray_Search xs v \<noteq> -1) = (v \<in> set xs)"
proof (induction xs)
  case Nil
  show ?case by simp
next
  case (Cons x xs)
  have "garray_Search xs v \<ge> -1" by (rule garray_Search_ge)
  with Cons show ?case by (auto simp: Let_def)
qed

lemma resolvePath_searchPaths:
  "searchPaths c' = searchPaths c \<Longrightarrow> resolvePath env c' path = resolvePath env c path"
  by (simp add: resolvePath_def cong: if_cong option.case_cong)

lemma AddPath_searchPaths:
  "searchPaths (fst (snd (AddPath env path c w))) =
     (let rp = fst (resolvePath env c path) in
      if rp \<noteq> '''' \<and> snd (resolvePath env c path) \<and> rp \<notin> set (searchPaths c)
      then searchPaths c @ [rp] else searchPaths c)"
  by (auto simp: AddPath_def Let_def garray_Search_member split: prod.splits)

lemma SetPath_searchPaths:
  "searchPaths (fst (snd (SetPath env path c w))) =
     (let rp = fst (resolvePath env c path) in
      if rp \<noteq> '''' \<and> snd (resolvePath env c path) \<and> rp \<notin> set (searchPaths c)
      then [rp] else searchPaths c)"
  by (auto simp: SetPath_def Let_def garray_Search_member split: prod.splits)

lemma pathSetOk_AddPath: "pathSetOk c \<Longrightarrow> pathSetOk (fst (snd (AddPath env path c w)))"
  by (auto simp: pathSetOk_def AddPath_searchPaths Let_def)

lemma pathSetOk_SetPath: "pathSetOk c \<Longrightarrow> pathSetOk (fst (snd (SetPath env path c w)))"
  by (auto simp: pathSetOk_def SetPath_searchPaths Let_def)

lemma pathSetOk_runPathCmd: "pathSetOk (fst s) \<Longrightarrow> pathSetOk (fst (runPathCmd x s))"
proof (cases x)
  case (Pair env cmd)
  obtain c w where s: "s = (c, w)" by (cases s)
  assume "pathSetOk (fst s)"
  with Pair s show ?thesis
    by (cases cmd) (simp_all add: pathSetOk_AddPath pathSetOk_SetPath)
qed

lemma pathSetOk_runPathCmds: "pathSetOk (fst s) \<Longrightarrow> pathSetOk (fst (runPathCmds ops s))"
proof (induction ops arbitrary: s)
  case Nil
  then show ?case by simp
next
  case (Cons x xs)
  from Cons.prems have "pathSetOk (fst (runPathCmd x s))" by (rule pathSetOk_runPathCmd)
  then show ?case using Cons.IH by simp
qed

lemma pathSetOk_defaultPaths: "pathSetOk c \<Longrightarrow> pathSetOk (fst (defaultPaths env c w))"
  by (simp add: defaultPaths_def Let_def pathSetOk_AddPath)

lemma pathSetOk_New: "pathSetOk (fst (New env file w))"
proof -
  have e: "pathSetOk (initialConfig env file)"
    by (simp add: pathSetOk_def initialConfig_def Let_def)
  show ?thesis
    by (simp add: New_def Let_def e pathSetOk_SetPath pathSetOk_defaultPaths)
qed

lemma AddPath_success:
  "fst (AddPath env path c w) = None \<Longrightarrow>
     fst (resolvePath env c path) \<noteq> '''' \<and> snd (resolvePath env c path)
     \<and> fst (resolvePath env c path) \<in> set (searchPaths (fst (snd (AddPath env path c w))))"
  by (auto simp: AddPath_def Let_def garray_Search_member split: prod.splits if_splits)

lemma AddPath_known_dir:
  "resolvePath env c path = (rp, True) \<Longrightarrow> rp \<noteq> '''' \<Longrightarrow> rp \<in> set (searchPaths c) \<Longrightarrow>
     AddPath env path c w = (None, c, w)"
  by (simp add: AddPath_def garray_Search_member)

lemma searchRelative_append:
  "searchRelative env xs path \<noteq> '''' \<Longrightarrow> searchRelative env (xs @ ys) path = searchRelative env xs path"
  by (induction xs) (auto simp: Let_def)

lemma resolvePath_after_AddPath:
  "resolvePath env (fst (snd (AddPath env path c w))) path = resolvePath env c path"
proof (cases "fst (resolvePath env c path) \<noteq> '''' \<and> snd (resolvePath env c path) \<and> fst (resolvePath env c path) \<notin> set (searchPaths c)")
  case False
  then have "searchPaths (fst (snd (AddPath env path c w))) = searchPaths c"
    by (simp add: AddPath_searchPaths Let_def)
  then show ?thesis by (rule resolvePath_searchPaths)
next
  case True
  then have sp: "searchPaths (fst (snd (AddPath env path c w))) = searchPaths c @ [fst (resolvePath env c path)]"
    by (simp add: AddPath_searchPaths Let_def)
  show ?thesis
  proof (cases "gres_Get env path = None \<and> gfile_RealPath env path = ''''")
    case False
    then show ?thesis by (auto simp: resolvePath_def Let_def split: option.splits)
  next
    case T2: True
    with True have "searchRelative env (searchPaths c) path \<noteq> ''''"
      by (simp add: resolvePath_def Let_def)
    then have "searchRelative env (searchPaths c @ [fst (resolvePath env c path)]) path = searchRelative env (searchPaths c) path"
      by (rule searchRelative_append)
    with sp T2 show ?thesis by (simp add: resolvePath_def Let_def)
  qed
qed

lemma tryResource_map_filter:
  "tryResource env prefix vs name =
     (case List.map_filter (gres_Get env) (map (\<lambda>v. prefix @ v @ name) vs) of
        [] \<Rightarrow> None | hit # _ \<Rightarrow> Some hit)"
  by (induction vs) (auto simp: List.map_filter_simps split: option.splits list.splits)

lemma map_filter_append_hd:
  "(case List.map_filter f (xs @ ys) of [] \<Rightarrow> None | h # _ \<Rightarrow> Some h) =
     (case List.map_filter f xs of [] \<Rightarrow> (case List.map_filter f ys of [] \<Rightarrow> None | h # _ \<Rightarrow> Some h)
      | h # _ \<Rightarrow> Some h)"
  by (simp add: List.map_filter_def split: list.splits)

lemma tryResourcePaths_map_filter:
  "tryResourcePaths env dirs name =
     (case List.map_filter (gres_Get env)
             (concat (map (\<lambda>d. map (\<lambda>v. d @ v @ name) resourceTryFiles) dirs)) of
        [] \<Rightarrow> None | hit # _ \<Rightarrow> Some hit)"
proof (induction dirs)
  case Nil
  show ?case by (simp add: List.map_filter_simps)
next
  case (Cons d dirs)
  show ?case
    by (simp add: map_filter_append_hd Cons.IH tryResource_map_filter split: list.splits)
qed

lemma overlayProbe_spec:
  "overlayProbe env dirs name =
     (case List.map_filter (gres_Get env) (specOverlayCandidates dirs name) of
        [] \<Rightarrow> None | hit # _ \<Rightarrow> Some hit)"
proof -
  have p: "specPrefixes = resourceTryFiles"
    by (simp add: specPrefixes_def resourceTryFiles_def)
  have "tryResource env '''' resourceTryFiles name =
     (case List.map_filter (gres_Get env) (map (\<lambda>v. v @ name) resourceTryFiles) of
        [] \<Rightarrow> None | hit # _ \<Rightarrow> Some hit)"
    using tryResource_map_filter [of env "''''" resourceTryFiles name] by simp
  then show ?thesis
    unfolding overlayProbe_def specOverlayCandidates_def p
    by (simp add: map_filter_append_hd tryResourcePaths_map_filter split: list.splits)
qed

lemma searchFileSystem_spec:
  "searchFileSystem env dirs name =
     (case filter (\<lambda>p. p \<noteq> '''')
             (map (\<lambda>root. gspath_Search env root name) (specFsCandidates env dirs)) of
        [] \<Rightarrow> '''' | p # _ \<Rightarrow> p)"
proof (induction dirs)
  case Nil
  show ?case by (simp add: specFsCandidates_def)
next
  case (Cons d dirs)
  have c: "specFsCandidates env (d # dirs) =
             [gstr_TrimRight env d trimCutset,
              gstr_TrimRight env d trimCutset @ gfile_Separator env @ ''config'']
             @ specFsCandidates env dirs"
    by (simp add: specFsCandidates_def specSeparators_def trimCutset_def)
  show ?case
    unfolding c using Cons.IH
    by (simp add: searchDir_def Let_def)
qed

lemma getSearchPaths_spec:
  "getSearchPaths env c = specSearchDirs (gfile_MainPkgPath env) (searchPaths c)"
  by (simp add: getSearchPaths_def specSearchDirs_def gstr_InArray_def Let_def)

lemma getSearchPaths_plain:
  "gfile_MainPkgPath env = '''' \<or> gfile_MainPkgPath env \<in> set (searchPaths c) \<Longrightarrow>
     getSearchPaths env c = searchPaths c"
  by (auto simp: getSearchPaths_def gstr_InArray_def Let_def)

lemma getSearchPaths_main_first:
  "gfile_MainPkgPath env \<noteq> '''' \<Longrightarrow> gfile_MainPkgPath env \<notin> set (searchPaths c) \<Longrightarrow>
     getSearchPaths env c = gfile_MainPkgPath env # searchPaths c"
  by (simp add: getSearchPaths_def gstr_InArray_def Let_def)

lemma searchFileSystem_hit:
  "searchDir env d name \<noteq> '''' \<Longrightarrow> searchFileSystem env (d # rest) name = searchDir env d name"
  by (simp add: Let_def)

lemma searchFileSystem_skip:
  "searchDir env d name = '''' \<Longrightarrow> searchFileSystem env (d # rest) name = searchFileSystem env rest name"
  by (simp add: Let_def)

lemma FilePath_no_overlay_hit:
  "gres_IsEmpty env \<or> overlayProbe env (getSearchPaths env c) name = None \<Longrightarrow>
     FilePath env c [name] = searchFileSystem env (getSearchPaths env c) name"
  by (auto simp: FilePath_def Let_def)

lemma getJson_hit:
  "jsonMap c (getJson_name c file) = Some j \<Longrightarrow> getJson env file c w = (Some j, c, w)"
  by (simp add: getJson_def GetOrSetFuncLock_def)

lemma getJson_miss:
  "jsonMap c (getJson_name c file) = None \<Longrightarrow>
     getJson env file c w =
       (case getJson_compute env c (getJson_name c file) w of
          (None, w') \<Rightarrow> (None, c, w')
        | (Some j, w') \<Rightarrow> (Some j, c\<lparr>jsonMap := (jsonMap c)(getJson_name c file \<mapsto> j)\<rparr>, w'))"
  by (simp add: getJson_def GetOrSetFuncLock_def split: prod.splits option.splits)

lemma getJson_miss_result:
  "jsonMap c (getJson_name c file) = None \<Longrightarrow>
     fst (getJson env file c w) = fst (getJson_compute env c (getJson_name c file) w)"
  by (simp add: getJson_miss split: prod.splits option.splits)

lemma SetPath_success:
  "fst (SetPath env path c w) = None \<Longrightarrow>
     fst (resolvePath env c path) \<noteq> '''' \<and> snd (resolvePath env c path)"
  by (auto simp: SetPath_def Let_def split: prod.splits if_splits)

lemma SetPath_new_root:
  "fst (SetPath env path c w) = None \<Longrightarrow> fst (resolvePath env c path) \<notin> set (searchPaths c) \<Longrightarrow>
     fst (snd (SetPath env path c w))
       = c\<lparr>jsonMap := Map.empty, searchPaths := [fst (resolvePath env c path)]\<rparr>"
  by (auto simp: SetPath_def Let_def garray_Search_member split: prod.splits if_splits)

lemma SetPath_known_root:
  "fst (SetPath env path c w) = None \<Longrightarrow> fst (resolvePath env c path) \<in> set (searchPaths c) \<Longrightarrow>
     SetPath env path c w = (None, c, w)"
  by (auto simp: SetPath_def Let_def garray_Search_member split: prod.splits if_splits)

lemma filePath_found:
  "FilePath env c [name] \<noteq> '''' \<Longrightarrow> filePath env c [name] w = (FilePath env c [name], w)"
  by (simp add: filePath_def Let_def)

lemma filePath_fst: "fst (filePath env c [name] w) = FilePath env c [name]"
  by (simp add: filePath_def Let_def)

lemma getJson_compute_file:
  "GetContent env name = '''' \<Longrightarrow> FilePath env c [name] \<noteq> '''' \<Longrightarrow>
     getJson_compute env c name w
       = loadAndWatch env c name (readContent env (FilePath env c [name]))
           (FilePath env c [name]) False w"
  by (simp add: getJson_compute_def filePath_found)

lemma getJson_compute_inline:
  "GetContent env name \<noteq> '''' \<Longrightarrow>
     getJson_compute env c name w = loadAndWatch env c name (GetContent env name) '''' True w"
  by (simp add: getJson_compute_def)

lemma getJson_compute_missing:
  "GetContent env name = '''' \<Longrightarrow> FilePath env c [name] = '''' \<Longrightarrow>
     fst (getJson_compute env c name w) = None"
proof -
  assume a: "GetContent env name = ''''" and b: "FilePath env c [name] = ''''"
  obtain fp w1 where f: "filePath env c [name] w = (fp, w1)"
    by (cases "filePath env c [name] w")
  with filePath_fst [of env c name w] b have "fp = ''''" by simp
  with a f show ?thesis by (simp add: getJson_compute_def)
qed

lemma loadAndWatch_result:
  "fst (loadAndWatch env c name content fp inl w) =
     (case loadDocument env name content inl of
        Inr d \<Rightarrow> Some \<lparr>j_data = d, j_violenceCheck = violenceCheck c\<rparr>
      | Inl e \<Rightarrow> None)"
  by (simp add: loadAndWatch_def Let_def split: sum.splits option.splits)

lemma getJson_none_uncached:
  "fst (getJson env file c w) = None \<Longrightarrow> jsonMap c (getJson_name c file) = None"
  by (cases "jsonMap c (getJson_name c file)") (simp_all add: getJson_hit)

lemma getJson_none_keeps_config:
  "fst (getJson env file c w) = None \<Longrightarrow> fst (snd (getJson env file c w)) = c"
proof -
  assume n: "fst (getJson env file c w) = None"
  then have u: "jsonMap c (getJson_name c file) = None" by (rule getJson_none_uncached)
  from n show ?thesis
    unfolding getJson_miss [OF u] by (auto split: prod.splits option.splits)
qed

lemma SetPath_error_keeps:
  "fst (SetPath env path c w) \<noteq> None \<Longrightarrow> fst (snd (SetPath env path c w)) = c"
  by (auto simp: SetPath_def Let_def split: prod.splits if_splits)

lemma AddPath_error_keeps:
  "fst (AddPath env path c w) \<noteq> None \<Longrightarrow> fst (snd (AddPath env path c w)) = c"
  by (auto simp: AddPath_def Let_def split: prod.splits if_splits)

lemma AddPath_error_iff:
  "(fst (AddPath env path c w) \<noteq> None)
     = (fst (resolvePath env c path) = '''' \<or> \<not> snd (resolvePath env c path))"
  by (auto simp: AddPath_def Let_def split: prod.splits if_splits)

lemma SetPath_error_iff:
  "(fst (SetPath env path c w) \<noteq> None)
     = (fst (resolvePath env c path) = '''' \<or> \<not> snd (resolvePath env c path))"
  by (auto simp: SetPath_def Let_def split: prod.splits if_splits)

lemma SetPath_error_world:
  "fst (SetPath env path c w) = Some err \<Longrightarrow>
     snd (snd (SetPath env path c w)) = glog_Error env (GlogError err) w"
  by (auto simp: SetPath_def Let_def split: prod.splits if_splits)

section \<open>The claims\<close>

subsection \<open>C1: SetPath as the switch of the configuration root\<close>

text \<open>
  Claim C1 as stated: whenever \<open>SetPath(path)\<close> returns nil, the document cache is empty
  and the search path set is exactly the resolved directory, so no document of the old
  set can be fetched afterwards. It fails when the resolved directory is already a
  member of the set: with the set \<open>[/a, /b]\<close> and \<open>app.json\<close> cached, \<open>SetPath(/b)\<close> returns
  nil, the set is still \<open>[/a, /b]\<close>, and the next fetch of \<open>app.json\<close> returns the cached
  document.
\<close>

theorem SetPath_member_counterexample:
  "resolvePath envFS cAB ''/b'' = (''/b'', True)
   \<and> fst (SetPath envFS ''/b'' cAB w0) = None
   \<and> searchPaths (fst (snd (SetPath envFS ''/b'' cAB w0))) = [''/a'', ''/b'']
   \<and> jsonMap (fst (snd (SetPath envFS ''/b'' cAB w0))) ''app.json'' = Some oldDoc
   \<and> fst (getJson envFS [''app.json''] (fst (snd (SetPath envFS ''/b'' cAB w0)))
            (snd (snd (SetPath envFS ''/b'' cAB w0)))) = Some oldDoc"
  by code_simp

text \<open>
  Claim C1, amended. When \<open>SetPath(path)\<close> returns nil, the path has resolved to an
  existing directory. If that directory is not yet a member of the search path set, the
  document cache is cleared and the set is replaced by exactly that directory, so every
  later fetch, in whatever environment, runs the compute step against the new \<open>Config\<close>
  and returns its result. If the directory is already a member, \<open>SetPath\<close> returns nil
  and leaves the set, the cache and everything else as they were.
\<close>

theorem SetPath_switches_root:
  assumes "fst (SetPath env path c w) = None"
  shows "fst (resolvePath env c path) \<noteq> '''' \<and> snd (resolvePath env c path)
       \<and> (fst (resolvePath env c path) \<notin> set (searchPaths c) \<longrightarrow>
            jsonMap (fst (snd (SetPath env path c w))) = Map.empty
            \<and> searchPaths (fst (snd (SetPath env path c w))) = [fst (resolvePath env c path)]
            \<and> (\<forall>env2 file w2.
                  fst (getJson env2 file (fst (snd (SetPath env path c w))) w2)
                    = fst (getJson_compute env2 (fst (snd (SetPath env path c w)))
                             (getJson_name (fst (snd (SetPath env path c w))) file) w2)))
       \<and> (fst (resolvePath env c path) \<in> set (searchPaths c) \<longrightarrow>
            SetPath env path c w = (None, c, w))"
proof -
  let ?c' = "fst (snd (SetPath env path c w))"
  let ?rp = "fst (resolvePath env c path)"
  from assms have dir: "?rp \<noteq> '''' \<and> snd (resolvePath env c path)"
    by (rule SetPath_success)
  have fresh: "jsonMap ?c' = Map.empty \<and> searchPaths ?c' = [?rp]
      \<and> (\<forall>env2 file w2. fst (getJson env2 file ?c' w2)
             = fst (getJson_compute env2 ?c' (getJson_name ?c' file) w2))"
    if new: "?rp \<notin> set (searchPaths c)"
  proof -
    from assms new have c': "?c' = c\<lparr>jsonMap := Map.empty, searchPaths := [?rp]\<rparr>"
      by (rule SetPath_new_root)
    then have m: "jsonMap ?c' = Map.empty" and s: "searchPaths ?c' = [?rp]"
      by simp_all
    from m have "fst (getJson env2 fl ?c' w2)
             = fst (getJson_compute env2 ?c' (getJson_name ?c' fl) w2)" for env2 fl w2
      by (simp add: getJson_miss_result)
    with m s show ?thesis by blast
  qed
  have kept: "SetPath env path c w = (None, c, w)" if "?rp \<in> set (searchPaths c)"
    using assms that by (rule SetPath_known_root)
  from dir fresh kept show ?thesis by blast
qed

text \<open>
  From the set \<open>[/a]\<close> with \<open>app.json\<close> cached from the old root, \<open>SetPath(/b)\<close> empties
  the cache and leaves \<open>[/b]\<close>; the next fetch of \<open>app.json\<close> parses \<open>/b/app.json\<close>.
\<close>

theorem SetPath_switches_root_witness:
  "fst (SetPath envFS ''/b'' (cA\<lparr>jsonMap := [''app.json'' \<mapsto> oldDoc]\<rparr>) w0) = None
   \<and> fst (resolvePath envFS (cA\<lparr>jsonMap := [''app.json'' \<mapsto> oldDoc]\<rparr>) ''/b'') = ''/b''
   \<and> ''/b'' \<notin> set (searchPaths (cA\<lparr>jsonMap := [''app.json'' \<mapsto> oldDoc]\<rparr>))
   \<and> searchPaths (fst (snd (SetPath envFS ''/b'' (cA\<lparr>jsonMap := [''app.json'' \<mapsto> oldDoc]\<rparr>) w0)))
       = [''/b'']
   \<and> jsonMap (fst (snd (SetPath envFS ''/b'' (cA\<lparr>jsonMap := [''app.json'' \<mapsto> oldDoc]\<rparr>) w0)))
       ''app.json'' = None
   \<and> fst (getJson envFS [''app.json'']
            (fst (snd (SetPath envFS ''/b'' (cA\<lparr>jsonMap := [''app.json'' \<mapsto> oldDoc]\<rparr>) w0))) w0)
       = Some \<lparr>j_data = ''json:{b}'', j_violenceCheck = False\<rparr>"
proof -
  let ?c = "cA\<lparr>jsonMap := [''app.json'' \<mapsto> oldDoc]\<rparr>"
  let ?c' = "fst (snd (SetPath envFS ''/b'' ?c w0))"
  have ok: "fst (SetPath envFS ''/b'' ?c w0) = None" by code_simp
  have rp: "fst (resolvePath envFS ?c ''/b'') = ''/b''" by code_simp
  have new: "''/b'' \<notin> set (searchPaths ?c)" by code_simp
  have comp: "fst (getJson_compute envFS ?c' (getJson_name ?c' [''app.json'']) w0)
                = Some \<lparr>j_data = ''json:{b}'', j_violenceCheck = False\<rparr>"
    by code_simp
  note t = SetPath_switches_root [OF ok]
  from t rp new have s: "searchPaths ?c' = [''/b'']" by simp
  from t rp new have "jsonMap ?c' = Map.empty" by simp
  then have m: "jsonMap ?c' ''app.json'' = None" by simp
  from t rp new have "fst (getJson envFS [''app.json''] ?c' w0)
      = fst (getJson_compute envFS ?c' (getJson_name ?c' [''app.json'']) w0)"
    by simp
  with comp have g: "fst (getJson envFS [''app.json''] ?c' w0)
      = Some \<lparr>j_data = ''json:{b}'', j_violenceCheck = False\<rparr>"
    by simp
  from ok rp new s m g show ?thesis by simp
qed

subsection \<open>C2: which directory wins\<close>

text \<open>
  Claim C2 as stated: for the search path set \<open>[A, B]\<close> and a file present under both,
  \<open>FilePath\<close> returns the path under \<open>A\<close>, whatever the default directories are. It
  fails: \<open>getSearchPaths\<close> puts the main package directory in front of the set, so with
  main package directory \<open>/m\<close> holding the file too, \<open>FilePath\<close> answers \<open>/m/app.json\<close>.
\<close>

theorem first_directory_counterexample:
  "searchPaths cAB = [''/a'', ''/b'']
   \<and> searchDir envMain ''/a'' ''app.json'' = ''/a/app.json''
   \<and> searchDir envMain ''/b'' ''app.json'' = ''/b/app.json''
   \<and> FilePath envMain cAB [''app.json''] = ''/m/app.json''
   \<and> FilePath envMain cAB [''app.json''] \<noteq> searchDir envMain ''/a'' ''app.json''"
  by code_simp

text \<open>
  Claim C2, amended. Let the search path set start with \<open>A\<close>, and let the overlay be
  empty or yield no hit. If the name is found under \<open>A\<close> (in \<open>A\<close> or in its \<open>config\<close>
  subdirectory) and the main package directory is empty, a member of the set, or does
  not hold the name, \<open>FilePath\<close> returns the path under \<open>A\<close>. If the main package
  directory is not empty, not a member of the set, and holds the name, \<open>FilePath\<close>
  returns the path under the main package directory.
\<close>

theorem first_directory_wins:
  assumes "searchPaths c = A # rest"
    and "gres_IsEmpty env \<or> overlayProbe env (getSearchPaths env c) name = None"
  shows "(searchDir env A name \<noteq> ''''
          \<and> (gfile_MainPkgPath env = '''' \<or> gfile_MainPkgPath env \<in> set (A # rest)
               \<or> searchDir env (gfile_MainPkgPath env) name = '''')
          \<longrightarrow> FilePath env c [name] = searchDir env A name)
       \<and> (gfile_MainPkgPath env \<noteq> '''' \<and> gfile_MainPkgPath env \<notin> set (A # rest)
          \<and> searchDir env (gfile_MainPkgPath env) name \<noteq> ''''
          \<longrightarrow> FilePath env c [name] = searchDir env (gfile_MainPkgPath env) name)"
proof -
  let ?M = "gfile_MainPkgPath env"
  from assms(2) have fp: "FilePath env c [name] = searchFileSystem env (getSearchPaths env c) name"
    by (rule FilePath_no_overlay_hit)
  have first: "FilePath env c [name] = searchDir env A name"
    if hit: "searchDir env A name \<noteq> ''''"
      and m: "?M = '''' \<or> ?M \<in> set (A # rest) \<or> searchDir env ?M name = ''''"
  proof (cases "?M = '''' \<or> ?M \<in> set (A # rest)")
    case True
    with assms(1) have "getSearchPaths env c = A # rest"
      using getSearchPaths_plain [of env c] by simp
    with fp hit show ?thesis by (simp add: searchFileSystem_hit)
  next
    case False
    with assms(1) have g: "getSearchPaths env c = ?M # A # rest"
      using getSearchPaths_main_first [of env c] by simp
    from False m have "searchDir env ?M name = ''''" by blast
    with fp g hit show ?thesis by (simp add: searchFileSystem_skip searchFileSystem_hit)
  qed
  have main: "FilePath env c [name] = searchDir env ?M name"
    if "?M \<noteq> ''''" and "?M \<notin> set (A # rest)" and hit: "searchDir env ?M name \<noteq> ''''"
  proof -
    from that assms(1) have "getSearchPaths env c = ?M # A # rest"
      using getSearchPaths_main_first [of env c] by simp
    with fp hit show ?thesis by (simp add: searchFileSystem_hit)
  qed
  from first main show ?thesis by blast
qed

text \<open>
  The set \<open>[/a, /b]\<close> with \<open>app.json\<close> in both: with no main package directory the
  answer is \<open>/a/app.json\<close>; with main package directory \<open>/m\<close> it is \<open>/m/app.json\<close>.
\<close>

theorem first_directory_wins_witness:
  "searchPaths cAB = [''/a'', ''/b'']
   \<and> gres_IsEmpty envFS \<and> gres_IsEmpty envMain
   \<and> searchDir envFS ''/a'' ''app.json'' = ''/a/app.json''
   \<and> gfile_MainPkgPath envFS = ''''
   \<and> FilePath envFS cAB [''app.json''] = ''/a/app.json''
   \<and> gfile_MainPkgPath envMain = ''/m''
   \<and> searchDir envMain ''/m'' ''app.json'' = ''/m/app.json''
   \<and> FilePath envMain cAB [''app.json''] = ''/m/app.json''"
proof -
  have sp: "searchPaths cAB = [''/a'', ''/b'']" by code_simp
  have e1: "gres_IsEmpty envFS" by code_simp
  have e2: "gres_IsEmpty envMain" by code_simp
  have a: "searchDir envFS ''/a'' ''app.json'' = ''/a/app.json''" by code_simp
  have m1: "gfile_MainPkgPath envFS = ''''" by code_simp
  have m2: "gfile_MainPkgPath envMain = ''/m''" by code_simp
  have m3: "searchDir envMain ''/m'' ''app.json'' = ''/m/app.json''" by code_simp
  from first_directory_wins [of cAB "''/a''" "[''/b'']" envFS "''app.json''"] sp e1 a m1
  have r1: "FilePath envFS cAB [''app.json''] = ''/a/app.json''" by simp
  from first_directory_wins [of cAB "''/a''" "[''/b'']" envMain "''app.json''"] sp e2 m2 m3
  have r2: "FilePath envMain cAB [''app.json''] = ''/m/app.json''" by simp
  from sp e1 e2 a m1 m2 m3 r1 r2 show ?thesis by simp
qed

subsection \<open>C3: one computation for concurrent callers\<close>

text \<open>
  Claim C3 speaks of two callers that request the same uncached name at the same time,
  and of a lookup of another key that must not be blocked meanwhile. The model above is
  sequential: \<open>getJson\<close> takes the state and returns the next one, so there is no
  interleaving to speak of, and the lock is inside \<open>gmap\<close>, outside the embedded sources.
  No theorem is stated for it. What the sequential model does give is the cache hit:
  a cached name is returned without running the compute step (\<open>getJson_hit\<close>).
\<close>

subsection \<open>C4: a failed access is not cached\<close>

text \<open>
  Claim C4. A first access to a name fails when the name is not cached and either has
  no inline content and resolves to no path, or its content is rejected by the parser.
  A failed access stores nothing in the document cache (the \<open>Config\<close> is unchanged), and
  a later access, in whatever state the files are then, runs resolution and parsing
  again: it returns what the compute step returns then and caches a success.
\<close>

theorem failed_access_not_cached:
  "(jsonMap c (getJson_name c file) = None \<and> GetContent env (getJson_name c file) = ''''
      \<and> FilePath env c [getJson_name c file] = '''' \<longrightarrow>
    fst (getJson env file c w) = None)
   \<and> (jsonMap c (getJson_name c file) = None \<and> GetContent env (getJson_name c file) = ''''
      \<and> FilePath env c [getJson_name c file] \<noteq> ''''
      \<and> loadDocument env (getJson_name c file)
           (readContent env (FilePath env c [getJson_name c file])) False = Inl e \<longrightarrow>
    fst (getJson env file c w) = None)
   \<and> (fst (getJson env file c w) = None \<longrightarrow>
    fst (snd (getJson env file c w)) = c
    \<and> jsonMap (fst (snd (getJson env file c w))) (getJson_name c file) = None
    \<and> (\<forall>env2 w2.
          getJson env2 file (fst (snd (getJson env file c w))) w2 =
            (case getJson_compute env2 c (getJson_name c file) w2 of
               (None, w3) \<Rightarrow> (None, c, w3)
             | (Some j, w3) \<Rightarrow>
                 (Some j, c\<lparr>jsonMap := (jsonMap c)(getJson_name c file \<mapsto> j)\<rparr>, w3))))"
proof -
  let ?name = "getJson_name c file"
  have unresolved: "fst (getJson env file c w) = None"
    if "jsonMap c ?name = None" and "GetContent env ?name = ''''"
      and "FilePath env c [?name] = ''''"
    using that by (simp add: getJson_miss_result getJson_compute_missing)
  have rejected: "fst (getJson env file c w) = None"
    if "jsonMap c ?name = None" and "GetContent env ?name = ''''"
      and "FilePath env c [?name] \<noteq> ''''"
      and "loadDocument env ?name (readContent env (FilePath env c [?name])) False = Inl e"
    using that by (simp add: getJson_miss_result getJson_compute_file loadAndWatch_result)
  have retried: "fst (snd (getJson env file c w)) = c
    \<and> jsonMap (fst (snd (getJson env file c w))) ?name = None
    \<and> (\<forall>env2 w2.
          getJson env2 file (fst (snd (getJson env file c w))) w2 =
            (case getJson_compute env2 c ?name w2 of
               (None, w3) \<Rightarrow> (None, c, w3)
             | (Some j, w3) \<Rightarrow> (Some j, c\<lparr>jsonMap := (jsonMap c)(?name \<mapsto> j)\<rparr>, w3)))"
    if n: "fst (getJson env file c w) = None"
  proof -
    from n have u: "jsonMap c ?name = None" by (rule getJson_none_uncached)
    from n have k: "fst (snd (getJson env file c w)) = c" by (rule getJson_none_keeps_config)
    from u k show ?thesis by (simp add: getJson_miss)
  qed
  from unresolved rejected retried show ?thesis by blast
qed

text \<open>
  With the set \<open>[/a]\<close>: \<open>nope.json\<close> resolves to nothing and \<open>/a/broken.json\<close> is rejected
  by the parser; both accesses return nothing and leave the cache without the name.
  Once the file is repaired, the next access to \<open>broken.json\<close> returns the parsed
  document and caches it.
\<close>

theorem failed_access_not_cached_witness:
  "jsonMap cA ''nope.json'' = None \<and> GetContent envFS ''nope.json'' = ''''
   \<and> FilePath envFS cA [''nope.json''] = ''''
   \<and> fst (getJson envFS [''nope.json''] cA w0) = None
   \<and> jsonMap cA ''broken.json'' = None \<and> GetContent envFS ''broken.json'' = ''''
   \<and> FilePath envFS cA [''broken.json''] = ''/a/broken.json''
   \<and> loadDocument envFS ''broken.json'' (readContent envFS ''/a/broken.json'') False
        = Inl (CollaboratorError ''parse'')
   \<and> fst (getJson envFS [''broken.json''] cA w0) = None
   \<and> jsonMap (fst (snd (getJson envFS [''broken.json''] cA w0))) ''broken.json'' = None
   \<and> fst (getJson envFixed [''broken.json''] (fst (snd (getJson envFS [''broken.json''] cA w0))) w0)
        = Some \<lparr>j_data = ''json:{ok}'', j_violenceCheck = False\<rparr>
   \<and> jsonMap (fst (snd (getJson envFixed [''broken.json'']
                            (fst (snd (getJson envFS [''broken.json''] cA w0))) w0)))
        ''broken.json''
        = Some \<lparr>j_data = ''json:{ok}'', j_violenceCheck = False\<rparr>"
proof -
  let ?c1 = "fst (snd (getJson envFS [''broken.json''] cA w0))"
  have n1: "getJson_name cA [''nope.json''] = ''nope.json''"
    and n2: "getJson_name cA [''broken.json''] = ''broken.json''"
    by (simp_all add: getJson_name_def)
  have a1: "jsonMap cA ''nope.json'' = None" by code_simp
  have a2: "GetContent envFS ''nope.json'' = ''''" by code_simp
  have a3: "FilePath envFS cA [''nope.json''] = ''''" by code_simp
  have b1: "jsonMap cA ''broken.json'' = None" by code_simp
  have b2: "GetContent envFS ''broken.json'' = ''''" by code_simp
  have b3: "FilePath envFS cA [''broken.json''] = ''/a/broken.json''" by code_simp
  have b4: "loadDocument envFS ''broken.json'' (readContent envFS ''/a/broken.json'') False
        = Inl (CollaboratorError ''parse'')" by code_simp
  have fixed: "getJson_compute envFixed cA ''broken.json'' w0
        = (Some \<lparr>j_data = ''json:{ok}'', j_violenceCheck = False\<rparr>,
           w0\<lparr>watches := [(''/a/broken.json'', RemoveName ''broken.json'')]\<rparr>)"
    by code_simp
  from failed_access_not_cached [of cA "[''nope.json'']" envFS w0] n1 a1 a2 a3
  have r1: "fst (getJson envFS [''nope.json''] cA w0) = None" by simp
  note t = failed_access_not_cached
             [of cA "[''broken.json'']" envFS w0 "CollaboratorError ''parse''"]
  from t n2 b1 b2 b3 b4
  have r2: "fst (getJson envFS [''broken.json''] cA w0) = None" by simp
  from t r2 n2 b1 have r3: "jsonMap ?c1 ''broken.json'' = None" by simp
  from t r2 have "\<forall>env2 w2. getJson env2 [''broken.json''] ?c1 w2 =
            (case getJson_compute env2 cA (getJson_name cA [''broken.json'']) w2 of
               (None, w3) \<Rightarrow> (None, cA, w3)
             | (Some j, w3) \<Rightarrow>
                 (Some j, cA\<lparr>jsonMap := (jsonMap cA)(getJson_name cA [''broken.json''] \<mapsto> j)\<rparr>,
                  w3))"
    by blast
  then have "getJson envFixed [''broken.json''] ?c1 w0 =
            (case getJson_compute envFixed cA (getJson_name cA [''broken.json'']) w0 of
               (None, w3) \<Rightarrow> (None, cA, w3)
             | (Some j, w3) \<Rightarrow>
                 (Some j, cA\<lparr>jsonMap := (jsonMap cA)(getJson_name cA [''broken.json''] \<mapsto> j)\<rparr>,
                  w3))"
    by blast
  with n2 fixed have "getJson envFixed [''broken.json''] ?c1 w0 =
     (Some \<lparr>j_data = ''json:{ok}'', j_violenceCheck = False\<rparr>,
      cA\<lparr>jsonMap := (jsonMap cA)(''broken.json''
               \<mapsto> \<lparr>j_data = ''json:{ok}'', j_violenceCheck = False\<rparr>)\<rparr>,
      w0\<lparr>watches := [(''/a/broken.json'', RemoveName ''broken.json'')]\<rparr>)"
    by simp
  then have r4: "fst (getJson envFixed [''broken.json''] ?c1 w0)
        = Some \<lparr>j_data = ''json:{ok}'', j_violenceCheck = False\<rparr>"
    and r5: "jsonMap (fst (snd (getJson envFixed [''broken.json''] ?c1 w0))) ''broken.json''
        = Some \<lparr>j_data = ''json:{ok}'', j_violenceCheck = False\<rparr>"
    by simp_all
  from a1 a2 a3 r1 b1 b2 b3 b4 r2 r3 r4 r5 show ?thesis by simp
qed

subsection \<open>C5: the order of resolution\<close>

text \<open>
  Claim C5 as stated: \<open>FilePath\<close> probes the overlay and then the file system under the
  directories of the search path set, and a miss everywhere gives the empty string. It
  fails: the directories \<open>FilePath\<close> goes through are those of \<open>getSearchPaths\<close>, which
  puts the main package directory in front of the set. With the set \<open>[/w]\<close>, no overlay
  and main package directory \<open>/m\<close> holding \<open>app.json\<close>, every candidate of the set misses,
  the resolution over the set gives the empty string, and \<open>FilePath\<close> answers
  \<open>/m/app.json\<close>.
\<close>

theorem FilePath_main_package_counterexample:
  "searchPaths (cEmpty\<lparr>searchPaths := [''/w'']\<rparr>) = [''/w'']
   \<and> gres_IsEmpty envMain
   \<and> list_all (\<lambda>root. gspath_Search envMain root ''app.json'' = '''')
        (specFsCandidates envMain [''/w''])
   \<and> specResolve envMain [''/w''] ''app.json'' = ''''
   \<and> FilePath envMain (cEmpty\<lparr>searchPaths := [''/w'']\<rparr>) [''app.json''] = ''/m/app.json''"
  by code_simp

text \<open>
  Claim C5, amended. The search directories of a resolution are the search path set,
  with the main package directory put in front when it is not empty and not already a
  member. \<open>FilePath\<close> resolves a name in this order: when the overlay is not empty, the
  name under the prefixes \<open>""\<close>, \<open>/\<close>, \<open>config/\<close>, \<open>config\<close>, \<open>/config\<close>, \<open>/config/\<close>, then the
  same prefixes under every search directory, first hit wins; with no overlay hit, the
  file system, for every search directory with trailing separators trimmed, the
  directory itself and then its \<open>config\<close> subdirectory; a miss at every candidate of the
  search directories gives the empty string. When the main package directory is empty
  or a member of the set, the search directories are the set itself. \<open>FilePath\<close> only
  reads its \<open>Config\<close>: it returns the path and nothing else, so neither the search path
  set nor the cache can change.
\<close>

theorem FilePath_resolution_order:
  "FilePath env c file
     = specResolve env (specSearchDirs (gfile_MainPkgPath env) (searchPaths c))
         (case file of [] \<Rightarrow> defaultName c | f # _ \<Rightarrow> f)
   \<and> ((gres_IsEmpty env
         \<or> (\<forall>p \<in> set (specOverlayCandidates
                          (specSearchDirs (gfile_MainPkgPath env) (searchPaths c)) name).
               gres_Get env p = None))
       \<and> (\<forall>root \<in> set (specFsCandidates env
                            (specSearchDirs (gfile_MainPkgPath env) (searchPaths c))).
               gspath_Search env root name = '''')
      \<longrightarrow> FilePath env c [name] = '''')
   \<and> (gfile_MainPkgPath env = '''' \<or> gfile_MainPkgPath env \<in> set (searchPaths c)
      \<longrightarrow> FilePath env c file
            = specResolve env (searchPaths c)
                (case file of [] \<Rightarrow> defaultName c | f # _ \<Rightarrow> f))"
proof -
  let ?dirs = "specSearchDirs (gfile_MainPkgPath env) (searchPaths c)"
  have eq: "FilePath env c fl
     = specResolve env ?dirs (case fl of [] \<Rightarrow> defaultName c | f # _ \<Rightarrow> f)"
    for fl
    by (simp add: FilePath_def specResolve_def Let_def overlayProbe_spec searchFileSystem_spec
          getSearchPaths_spec split: list.splits)
  have miss: "specResolve env dirs name = ''''"
    if o: "gres_IsEmpty env
           \<or> (\<forall>p \<in> set (specOverlayCandidates dirs name). gres_Get env p = None)"
    and f: "\<forall>root \<in> set (specFsCandidates env dirs). gspath_Search env root name = ''''"
    for dirs
  proof -
    from o have "(if gres_IsEmpty env then []
                  else List.map_filter (gres_Get env) (specOverlayCandidates dirs name)) = []"
      by (auto simp: List.map_filter_def filter_empty_conv)
    moreover from f have "filter (\<lambda>p. p \<noteq> '''')
                     (map (\<lambda>root. gspath_Search env root name) (specFsCandidates env dirs)) = []"
      by (auto simp: filter_empty_conv)
    ultimately show ?thesis by (simp add: specResolve_def)
  qed
  have plain: "?dirs = searchPaths c"
    if "gfile_MainPkgPath env = '''' \<or> gfile_MainPkgPath env \<in> set (searchPaths c)"
    using that by (auto simp: specSearchDirs_def)
  from eq [of "file"] eq [of "[name]"] miss [of ?dirs] plain show ?thesis by simp
qed

text \<open>
  With the overlay holding \<open>config/app.json\<close> and the set \<open>[/a, /b]\<close>: \<open>nope.json\<close> misses
  every candidate and resolves to the empty string; \<open>app.json\<close> resolves to the overlay's
  entry, and without the overlay to \<open>/a/app.json\<close>. The set \<open>[/a/]\<close> is searched as \<open>/a\<close>.
  With main package directory \<open>/m\<close> the search directories are \<open>[/m, /a, /b]\<close> and the
  answer is \<open>/m/app.json\<close>.
\<close>

theorem FilePath_resolution_order_witness:
  "\<not> gres_IsEmpty envOverlay
   \<and> specSearchDirs (gfile_MainPkgPath envOverlay) (searchPaths cAB) = [''/a'', ''/b'']
   \<and> list_all (\<lambda>p. gres_Get envOverlay p = None)
        (specOverlayCandidates [''/a'', ''/b''] ''nope.json'')
   \<and> list_all (\<lambda>root. gspath_Search envOverlay root ''nope.json'' = '''')
        (specFsCandidates envOverlay [''/a'', ''/b''])
   \<and> FilePath envOverlay cAB [''nope.json''] = ''''
   \<and> FilePath envOverlay cAB [''app.json''] = ''config/app.json''
   \<and> gfile_MainPkgPath envFS = ''''
   \<and> specResolve envFS [''/a'', ''/b''] ''app.json'' = ''/a/app.json''
   \<and> FilePath envFS cAB [''app.json''] = ''/a/app.json''
   \<and> specFsCandidates envFS [''/a/''] = [''/a'', ''/a/config'']
   \<and> FilePath envFS (cEmpty\<lparr>searchPaths := [''/a/'']\<rparr>) [''app.json''] = ''/a/app.json''
   \<and> specSearchDirs (gfile_MainPkgPath envMain) (searchPaths cAB) = [''/m'', ''/a'', ''/b'']
   \<and> FilePath envMain cAB [''app.json''] = ''/m/app.json''"
proof -
  let ?cs = "cEmpty\<lparr>searchPaths := [''/a/'']\<rparr>"
  have n: "\<not> gres_IsEmpty envOverlay" by code_simp
  have d: "specSearchDirs (gfile_MainPkgPath envOverlay) (searchPaths cAB) = [''/a'', ''/b'']"
    by code_simp
  have o: "list_all (\<lambda>p. gres_Get envOverlay p = None)
        (specOverlayCandidates [''/a'', ''/b''] ''nope.json'')"
    by code_simp
  have f: "list_all (\<lambda>root. gspath_Search envOverlay root ''nope.json'' = '''')
        (specFsCandidates envOverlay [''/a'', ''/b''])"
    by code_simp
  from o have o': "\<forall>p \<in> set (specOverlayCandidates [''/a'', ''/b''] ''nope.json'').
               gres_Get envOverlay p = None"
    by (simp only: list_all_iff)
  from f have f': "\<forall>root \<in> set (specFsCandidates envOverlay [''/a'', ''/b'']).
               gspath_Search envOverlay root ''nope.json'' = ''''"
    by (simp only: list_all_iff)
  from FilePath_resolution_order
         [of envOverlay cAB "[''nope.json'']" "''nope.json''", unfolded d] o' f'
  have m: "FilePath envOverlay cAB [''nope.json''] = ''''"
    by blast
  have r1: "specResolve envOverlay [''/a'', ''/b''] ''app.json'' = ''config/app.json''"
    by code_simp
  from FilePath_resolution_order
         [of envOverlay cAB "[''app.json'']" "''app.json''", unfolded d] r1
  have a1: "FilePath envOverlay cAB [''app.json''] = ''config/app.json''"
    by simp
  have m0: "gfile_MainPkgPath envFS = ''''" by code_simp
  have sp: "searchPaths cAB = [''/a'', ''/b'']" "searchPaths ?cs = [''/a/'']" by code_simp+
  have r2: "specResolve envFS [''/a'', ''/b''] ''app.json'' = ''/a/app.json''"
    by code_simp
  from FilePath_resolution_order [of envFS cAB "[''app.json'']" "''app.json''"] m0
  have "FilePath envFS cAB [''app.json'']
          = specResolve envFS (searchPaths cAB)
              (case [''app.json''] of [] \<Rightarrow> defaultName cAB | f # _ \<Rightarrow> f)"
    by blast
  with sp r2 have a2: "FilePath envFS cAB [''app.json''] = ''/a/app.json''"
    by simp
  have t: "specFsCandidates envFS [''/a/''] = [''/a'', ''/a/config'']" by code_simp
  have r3: "specResolve envFS [''/a/''] ''app.json'' = ''/a/app.json''" by code_simp
  from FilePath_resolution_order [of envFS ?cs "[''app.json'']" "''app.json''"] m0
  have "FilePath envFS ?cs [''app.json'']
          = specResolve envFS (searchPaths ?cs)
              (case [''app.json''] of [] \<Rightarrow> defaultName ?cs | f # _ \<Rightarrow> f)"
    by blast
  with sp r3 have a3: "FilePath envFS ?cs [''app.json''] = ''/a/app.json''"
    by simp
  have dm: "specSearchDirs (gfile_MainPkgPath envMain) (searchPaths cAB)
              = [''/m'', ''/a'', ''/b'']"
    by code_simp
  have r4: "specResolve envMain [''/m'', ''/a'', ''/b''] ''app.json'' = ''/m/app.json''"
    by code_simp
  from FilePath_resolution_order
         [of envMain cAB "[''app.json'']" "''app.json''", unfolded dm] r4
  have a4: "FilePath envMain cAB [''app.json''] = ''/m/app.json''"
    by simp
  from n d o f m a1 m0 r2 a2 t a3 dm a4 show ?thesis by simp
qed

subsection \<open>C6: a failing AddPath or SetPath changes nothing\<close>

text \<open>
  Claim C6. \<open>AddPath(path)\<close> and \<open>SetPath(path)\<close> return an error exactly when the path
  resolves to nothing or to an entry that is not a directory, and whenever either
  returns an error the search path set is exactly as it was before the call; in fact
  the whole \<open>Config\<close> is.
\<close>

theorem failed_path_op_keeps_config:
  "(fst (AddPath env path c w) \<noteq> None)
     = (fst (resolvePath env c path) = '''' \<or> \<not> snd (resolvePath env c path))
   \<and> (fst (SetPath env path c w) \<noteq> None)
     = (fst (resolvePath env c path) = '''' \<or> \<not> snd (resolvePath env c path))
   \<and> (fst (AddPath env path c w) \<noteq> None \<longrightarrow>
      fst (snd (AddPath env path c w)) = c
      \<and> searchPaths (fst (snd (AddPath env path c w))) = searchPaths c)
   \<and> (fst (SetPath env path c w) \<noteq> None \<longrightarrow>
      fst (snd (SetPath env path c w)) = c
      \<and> searchPaths (fst (snd (SetPath env path c w))) = searchPaths c)"
proof -
  have add: "fst (snd (AddPath env path c w)) = c
      \<and> searchPaths (fst (snd (AddPath env path c w))) = searchPaths c"
    if "fst (AddPath env path c w) \<noteq> None"
    using AddPath_error_keeps [OF that] by simp
  have set: "fst (snd (SetPath env path c w)) = c
      \<and> searchPaths (fst (snd (SetPath env path c w))) = searchPaths c"
    if "fst (SetPath env path c w) \<noteq> None"
    using SetPath_error_keeps [OF that] by simp
  from add set AddPath_error_iff [of env path c w] SetPath_error_iff [of env path c w]
  show ?thesis by blast
qed

text \<open>
  A path that does not exist given to \<open>AddPath\<close>, and a file given to \<open>SetPath\<close>: both
  fail, and the set is still \<open>[/a, /b]\<close>.
\<close>

theorem failed_path_op_keeps_config_witness:
  "fst (AddPath envFS ''/nope'' cAB w0)
     = Some (CannotFindDirectory ''AddPath'' ''/nope'' [''/a'', ''/b''])
   \<and> searchPaths (fst (snd (AddPath envFS ''/nope'' cAB w0))) = [''/a'', ''/b'']
   \<and> fst (SetPath envFS ''/a/notes.txt'' cAB w0)
     = Some (ShouldBeDirectory ''SetPath'' ''/a/notes.txt'')
   \<and> searchPaths (fst (snd (SetPath envFS ''/a/notes.txt'' cAB w0))) = [''/a'', ''/b'']"
proof -
  have a: "fst (AddPath envFS ''/nope'' cAB w0)
             = Some (CannotFindDirectory ''AddPath'' ''/nope'' [''/a'', ''/b''])"
    by code_simp
  have s: "fst (SetPath envFS ''/a/notes.txt'' cAB w0)
             = Some (ShouldBeDirectory ''SetPath'' ''/a/notes.txt'')"
    by code_simp
  have p: "searchPaths cAB = [''/a'', ''/b'']"
    by (simp add: cAB_def)
  from a have a': "fst (AddPath envFS ''/nope'' cAB w0) \<noteq> None" by simp
  from s have s': "fst (SetPath envFS ''/a/notes.txt'' cAB w0) \<noteq> None" by simp
  from failed_path_op_keeps_config [of envFS "''/nope''" cAB w0] a'
  have "searchPaths (fst (snd (AddPath envFS ''/nope'' cAB w0))) = searchPaths cAB"
    by blast
  moreover
  from failed_path_op_keeps_config [of envFS "''/a/notes.txt''" cAB w0] s'
  have "searchPaths (fst (snd (SetPath envFS ''/a/notes.txt'' cAB w0))) = searchPaths cAB"
    by blast
  ultimately show ?thesis using a s p by simp
qed

subsection \<open>C7: the watch on a parsed file\<close>

text \<open>
  Claim C7 as stated: after a successful parse from a real file a watch is registered,
  and if the registration fails the failure is logged while the lookup still succeeds.
  The logging fails: the report is behind \<open>errorPrint()\<close>. With error printing off and
  a watcher that refuses the path, the document is returned and nothing is logged.
\<close>

theorem watch_failure_counterexample:
  "GetContent envNoWatchQuiet ''app.json'' = ''''
   \<and> FilePath envNoWatchQuiet cA [''app.json''] = ''/a/app.json''
   \<and> gres_Get envNoWatchQuiet ''/a/app.json'' = None
   \<and> gfsnotify_Add envNoWatchQuiet ''/a/app.json'' = Some (CollaboratorError ''watch'')
   \<and> fst (getJson envNoWatchQuiet [''app.json''] cA w0)
       = Some \<lparr>j_data = ''json:{a}'', j_violenceCheck = False\<rparr>
   \<and> glog (snd (snd (getJson envNoWatchQuiet [''app.json''] cA w0))) = []"
  by code_simp

text \<open>
  Claim C7, amended. Let a name be uncached, without inline content, resolved to a path
  the overlay does not hold, and let the parse of the file's content succeed. Then the
  lookup returns the document and caches it under the name, whatever the watcher
  answers. If the watcher accepts the path, a watch on the resolved path is registered
  whose callback removes that name from the cache, and only that name. If the watcher
  refuses, no watch is registered, and the failure is logged when error printing is on.
\<close>

theorem watch_after_file_parse:
  assumes "jsonMap c (getJson_name c file) = None"
    and "GetContent env (getJson_name c file) = ''''"
    and "FilePath env c [getJson_name c file] \<noteq> ''''"
    and "gres_Get env (FilePath env c [getJson_name c file]) = None"
    and "loadDocument env (getJson_name c file)
           (gfile_GetContents env (FilePath env c [getJson_name c file])) False = Inr d"
  shows "getJson env file c w =
           (Some \<lparr>j_data = d, j_violenceCheck = violenceCheck c\<rparr>,
            c\<lparr>jsonMap := (jsonMap c)(getJson_name c file
                  \<mapsto> \<lparr>j_data = d, j_violenceCheck = violenceCheck c\<rparr>)\<rparr>,
            (case gfsnotify_Add env (FilePath env c [getJson_name c file]) of
               None \<Rightarrow>
                 w\<lparr>watches := watches w
                      @ [(FilePath env c [getJson_name c file], RemoveName (getJson_name c file))]\<rparr>
             | Some err \<Rightarrow>
                 (if errorPrint env then w\<lparr>glog := glog w @ [GlogError err]\<rparr> else w)))
       \<and> jsonMap (runCallback (RemoveName (getJson_name c file)) c2)
           = (jsonMap c2)(getJson_name c file := None)
       \<and> searchPaths (runCallback (RemoveName (getJson_name c file)) c2) = searchPaths c2"
proof -
  let ?name = "getJson_name c file"
  let ?fp = "FilePath env c [?name]"
  let ?j = "\<lparr>j_data = d, j_violenceCheck = violenceCheck c\<rparr>"
  from assms(4) have rc: "readContent env ?fp = gfile_GetContents env ?fp"
    by (simp add: readContent_def)
  from assms(2,3) have "getJson_compute env c ?name w
      = loadAndWatch env c ?name (readContent env ?fp) ?fp False w"
    by (rule getJson_compute_file)
  with rc assms(3,4,5) have comp: "getJson_compute env c ?name w =
      (Some ?j,
       (case gfsnotify_Add env ?fp of
          None \<Rightarrow> w\<lparr>watches := watches w @ [(?fp, RemoveName ?name)]\<rparr>
        | Some err \<Rightarrow> (if errorPrint env then w\<lparr>glog := glog w @ [GlogError err]\<rparr> else w)))"
    by (simp add: loadAndWatch_def gres_Contains_def glog_Error_def Let_def split: option.splits)
  from assms(1) comp show ?thesis
    by (simp add: getJson_miss)
qed

text \<open>
  With the set \<open>[/a]\<close>, \<open>app.json\<close> is parsed from \<open>/a/app.json\<close>. A watcher that accepts
  gives the watch \<open>(/a/app.json, remove app.json)\<close>; one that refuses, with error printing
  on, gives a log line and no watch; the document is returned and cached both times.
\<close>

theorem watch_after_file_parse_witness:
  "fst (getJson envFS [''app.json''] cA w0)
     = Some \<lparr>j_data = ''json:{a}'', j_violenceCheck = False\<rparr>
   \<and> jsonMap (fst (snd (getJson envFS [''app.json''] cA w0))) ''app.json''
     = Some \<lparr>j_data = ''json:{a}'', j_violenceCheck = False\<rparr>
   \<and> snd (snd (getJson envFS [''app.json''] cA w0))
     = w0\<lparr>watches := [(''/a/app.json'', RemoveName ''app.json'')]\<rparr>
   \<and> fst (getJson envNoWatch [''app.json''] cA w0)
     = Some \<lparr>j_data = ''json:{a}'', j_violenceCheck = False\<rparr>
   \<and> jsonMap (fst (snd (getJson envNoWatch [''app.json''] cA w0))) ''app.json''
     = Some \<lparr>j_data = ''json:{a}'', j_violenceCheck = False\<rparr>
   \<and> snd (snd (getJson envNoWatch [''app.json''] cA w0))
     = w0\<lparr>glog := [GlogError (CollaboratorError ''watch'')]\<rparr>
   \<and> jsonMap (runCallback (RemoveName ''app.json'') cAB) ''app.json'' = None"
proof -
  have n: "getJson_name cA [''app.json''] = ''app.json''"
    by (simp add: getJson_name_def)
  have u: "jsonMap cA ''app.json'' = None" by code_simp
  have a1: "GetContent envFS ''app.json'' = ''''" by code_simp
  have a2: "FilePath envFS cA [''app.json''] = ''/a/app.json''" by code_simp
  have a3: "gres_Get envFS ''/a/app.json'' = None" by code_simp
  have a4: "loadDocument envFS ''app.json'' (gfile_GetContents envFS ''/a/app.json'') False
              = Inr ''json:{a}''" by code_simp
  have a5: "gfsnotify_Add envFS ''/a/app.json'' = None" by code_simp
  have b1: "GetContent envNoWatch ''app.json'' = ''''" by code_simp
  have b2: "FilePath envNoWatch cA [''app.json''] = ''/a/app.json''" by code_simp
  have b3: "gres_Get envNoWatch ''/a/app.json'' = None" by code_simp
  have b4: "loadDocument envNoWatch ''app.json'' (gfile_GetContents envNoWatch ''/a/app.json'')
              False = Inr ''json:{a}''" by code_simp
  have b5: "gfsnotify_Add envNoWatch ''/a/app.json'' = Some (CollaboratorError ''watch'')"
    by code_simp
  have b6: "errorPrint envNoWatch" by code_simp
  have v: "violenceCheck cA = False" by code_simp
  have w: "watches w0 = []" "glog w0 = []" by (simp_all add: w0_def)
  from watch_after_file_parse [of cA "[''app.json'']" envFS "''json:{a}''" w0 cAB]
    n u a1 a2 a3 a4 a5 v w
  have r1: "getJson envFS [''app.json''] cA w0 =
      (Some \<lparr>j_data = ''json:{a}'', j_violenceCheck = False\<rparr>,
       cA\<lparr>jsonMap := (jsonMap cA)(''app.json''
             \<mapsto> \<lparr>j_data = ''json:{a}'', j_violenceCheck = False\<rparr>)\<rparr>,
       w0\<lparr>watches := [(''/a/app.json'', RemoveName ''app.json'')]\<rparr>)"
    and cb: "jsonMap (runCallback (RemoveName ''app.json'') cAB)
               = (jsonMap cAB)(''app.json'' := None)"
    by simp_all
  from watch_after_file_parse [of cA "[''app.json'']" envNoWatch "''json:{a}''" w0 cAB]
    n u b1 b2 b3 b4 b5 b6 v w
  have r2: "getJson envNoWatch [''app.json''] cA w0 =
      (Some \<lparr>j_data = ''json:{a}'', j_violenceCheck = False\<rparr>,
       cA\<lparr>jsonMap := (jsonMap cA)(''app.json''
             \<mapsto> \<lparr>j_data = ''json:{a}'', j_violenceCheck = False\<rparr>)\<rparr>,
       w0\<lparr>glog := [GlogError (CollaboratorError ''watch'')]\<rparr>)"
    by simp
  from r1 r2 cb show ?thesis by simp
qed

subsection \<open>C8: parser dispatch\<close>

text \<open>
  Claim C8. For an uncached name whose content comes from a resolved path: if the
  extension is one of \<open>toml\<close>, \<open>yaml\<close>, \<open>json\<close>, \<open>ini\<close>, \<open>xml\<close> (more generally, any type
  \<open>gjson.IsValidDataType\<close> accepts), the content is parsed by the typed parser for that
  extension; if the extension is not recognised, by the generic parser. Inline content
  is parsed by the generic parser whatever the extension. \<open>gjson.IsValidDataType\<close> is a
  parameter; the theorem assumes that it accepts the five supported types.
\<close>

theorem parser_dispatch:
  assumes "jsonMap c (getJson_name c file) = None"
    and "\<forall>t \<in> set supportedFileTypes. gjson_IsValidDataType env t"
  shows "(GetContent env (getJson_name c file) = ''''
          \<and> FilePath env c [getJson_name c file] \<noteq> ''''
          \<and> (gfile_ExtName env (getJson_name c file) \<in> set supportedFileTypes
               \<or> gjson_IsValidDataType env (gfile_ExtName env (getJson_name c file)))
          \<longrightarrow> fst (getJson env file c w) =
               (case gjson_LoadContentType env (gfile_ExtName env (getJson_name c file))
                       (readContent env (FilePath env c [getJson_name c file])) True of
                  Inr d \<Rightarrow> Some \<lparr>j_data = d, j_violenceCheck = violenceCheck c\<rparr>
                | Inl e \<Rightarrow> None))
       \<and> (GetContent env (getJson_name c file) = ''''
          \<and> FilePath env c [getJson_name c file] \<noteq> ''''
          \<and> \<not> gjson_IsValidDataType env (gfile_ExtName env (getJson_name c file))
          \<longrightarrow> fst (getJson env file c w) =
               (case gjson_LoadContent env
                       (readContent env (FilePath env c [getJson_name c file])) True of
                  Inr d \<Rightarrow> Some \<lparr>j_data = d, j_violenceCheck = violenceCheck c\<rparr>
                | Inl e \<Rightarrow> None))
       \<and> (GetContent env (getJson_name c file) \<noteq> ''''
          \<longrightarrow> fst (getJson env file c w) =
               (case gjson_LoadContent env (GetContent env (getJson_name c file)) True of
                  Inr d \<Rightarrow> Some \<lparr>j_data = d, j_violenceCheck = violenceCheck c\<rparr>
                | Inl e \<Rightarrow> None))"
proof -
  let ?name = "getJson_name c file"
  let ?fp = "FilePath env c [?name]"
  let ?ext = "gfile_ExtName env ?name"
  from assms(1) have g: "fst (getJson env file c w) = fst (getJson_compute env c ?name w)"
    by (rule getJson_miss_result)
  have from_file: "fst (getJson env file c w) =
      (case loadDocument env ?name (readContent env ?fp) False of
         Inr d \<Rightarrow> Some \<lparr>j_data = d, j_violenceCheck = violenceCheck c\<rparr>
       | Inl e \<Rightarrow> None)"
    if "GetContent env ?name = ''''" and "?fp \<noteq> ''''"
    using that g by (simp add: getJson_compute_file loadAndWatch_result)
  have typed: "fst (getJson env file c w) =
      (case gjson_LoadContentType env ?ext (readContent env ?fp) True of
         Inr d \<Rightarrow> Some \<lparr>j_data = d, j_violenceCheck = violenceCheck c\<rparr>
       | Inl e \<Rightarrow> None)"
    if a: "GetContent env ?name = ''''" and b: "?fp \<noteq> ''''"
      and v: "?ext \<in> set supportedFileTypes \<or> gjson_IsValidDataType env ?ext"
  proof -
    from v assms(2) have "gjson_IsValidDataType env ?ext" by blast
    then have "loadDocument env ?name (readContent env ?fp) False
                 = gjson_LoadContentType env ?ext (readContent env ?fp) True"
      by (simp add: loadDocument_def)
    with from_file [OF a b] show ?thesis by simp
  qed
  have generic: "fst (getJson env file c w) =
      (case gjson_LoadContent env (readContent env ?fp) True of
         Inr d \<Rightarrow> Some \<lparr>j_data = d, j_violenceCheck = violenceCheck c\<rparr>
       | Inl e \<Rightarrow> None)"
    if a: "GetContent env ?name = ''''" and b: "?fp \<noteq> ''''"
      and v: "\<not> gjson_IsValidDataType env ?ext"
  proof -
    from v have "loadDocument env ?name (readContent env ?fp) False
                 = gjson_LoadContent env (readContent env ?fp) True"
      by (simp add: loadDocument_def)
    with from_file [OF a b] show ?thesis by simp
  qed
  have inline: "fst (getJson env file c w) =
      (case gjson_LoadContent env (GetContent env ?name) True of
         Inr d \<Rightarrow> Some \<lparr>j_data = d, j_violenceCheck = violenceCheck c\<rparr>
       | Inl e \<Rightarrow> None)"
    if "GetContent env ?name \<noteq> ''''"
    using that g
    by (simp add: getJson_compute_inline loadAndWatch_result loadDocument_def)
  from typed generic inline show ?thesis by blast
qed

text \<open>
  With the set \<open>[/a]\<close>: \<open>app.json\<close> goes to the typed parser for \<open>json\<close>, \<open>notes.txt\<close> to the
  generic parser, and the inline content registered as \<open>inline.json\<close> to the generic
  parser despite its extension.
\<close>

theorem parser_dispatch_witness:
  "list_all (gjson_IsValidDataType envFS) supportedFileTypes
   \<and> gfile_ExtName envFS ''app.json'' = ''json''
   \<and> fst (getJson envFS [''app.json''] cA w0)
       = Some \<lparr>j_data = ''json:{a}'', j_violenceCheck = False\<rparr>
   \<and> gfile_ExtName envFS ''notes.txt'' = ''txt''
   \<and> fst (getJson envFS [''notes.txt''] cA w0)
       = Some \<lparr>j_data = ''auto:x'', j_violenceCheck = False\<rparr>
   \<and> gfile_ExtName envInline ''inline.json'' = ''json''
   \<and> fst (getJson envInline [''inline.json''] cA w0)
       = Some \<lparr>j_data = ''auto:{i}'', j_violenceCheck = False\<rparr>"
proof -
  have v1: "list_all (gjson_IsValidDataType envFS) supportedFileTypes" by code_simp
  have v2: "list_all (gjson_IsValidDataType envInline) supportedFileTypes" by code_simp
  from v1 have s1: "\<forall>t \<in> set supportedFileTypes. gjson_IsValidDataType envFS t"
    by (simp only: list_all_iff)
  from v2 have s2: "\<forall>t \<in> set supportedFileTypes. gjson_IsValidDataType envInline t"
    by (simp only: list_all_iff)
  have n: "getJson_name cA [''app.json''] = ''app.json''"
    "getJson_name cA [''notes.txt''] = ''notes.txt''"
    "getJson_name cA [''inline.json''] = ''inline.json''"
    by (simp_all add: getJson_name_def)
  have u: "jsonMap cA x = None" for x by (simp add: cA_def cEmpty_def)
  have vc: "violenceCheck cA = False" by code_simp
  have a: "GetContent envFS ''app.json'' = ''''"
    "FilePath envFS cA [''app.json''] = ''/a/app.json''"
    "gfile_ExtName envFS ''app.json'' = ''json''"
    "''json'' \<in> set supportedFileTypes"
    "gjson_LoadContentType envFS ''json'' (readContent envFS ''/a/app.json'') True
       = Inr ''json:{a}''"
    by code_simp+
  have b: "GetContent envFS ''notes.txt'' = ''''"
    "FilePath envFS cA [''notes.txt''] = ''/a/notes.txt''"
    "gfile_ExtName envFS ''notes.txt'' = ''txt''"
    "\<not> gjson_IsValidDataType envFS ''txt''"
    "gjson_LoadContent envFS (readContent envFS ''/a/notes.txt'') True = Inr ''auto:x''"
    by code_simp+
  have i: "GetContent envInline ''inline.json'' = ''{i}''"
    "gfile_ExtName envInline ''inline.json'' = ''json''"
    "gjson_LoadContent envInline ''{i}'' True = Inr ''auto:{i}''"
    by code_simp+
  from parser_dispatch [OF u s1, of "[''app.json'']" w0] n a vc
  have r1: "fst (getJson envFS [''app.json''] cA w0)
       = Some \<lparr>j_data = ''json:{a}'', j_violenceCheck = False\<rparr>"
    by simp
  from parser_dispatch [OF u s1, of "[''notes.txt'']" w0] n b vc
  have r2: "fst (getJson envFS [''notes.txt''] cA w0)
       = Some \<lparr>j_data = ''auto:x'', j_violenceCheck = False\<rparr>"
    by simp
  from parser_dispatch [OF u s2, of "[''inline.json'']" w0] n i vc
  have r3: "fst (getJson envInline [''inline.json''] cA w0)
       = Some \<lparr>j_data = ''auto:{i}'', j_violenceCheck = False\<rparr>"
    by simp
  from v1 a(3) b(3) i(2) r1 r2 r3 show ?thesis by simp
qed

subsection \<open>C9: the search path set has no empty and no duplicate entry\<close>

text \<open>
  Claim C9. The search path set never holds an empty or a duplicate entry after any
  sequence of \<open>AddPath\<close>/\<open>SetPath\<close> calls: for a \<open>Config\<close> built by \<open>New\<close>, and for any
  \<open>Config\<close> whose set is already free of both. Calling \<open>AddPath\<close> a second time with an
  argument that resolves to the same directory (in particular, with the same argument
  again) returns success and changes nothing, so the length of the set is unchanged.
\<close>

theorem search_path_set_invariant:
  "pathSetOk (fst (runPathCmds ops (New env file w)))
   \<and> (pathSetOk c \<longrightarrow> pathSetOk (fst (runPathCmds ops (c, w))))
   \<and> (fst (AddPath env1 p1 c w1) = None
        \<and> resolvePath env2 (fst (snd (AddPath env1 p1 c w1))) p2 = resolvePath env1 c p1 \<longrightarrow>
      AddPath env2 p2 (fst (snd (AddPath env1 p1 c w1))) w2
        = (None, fst (snd (AddPath env1 p1 c w1)), w2)
      \<and> length (searchPaths (fst (snd (AddPath env2 p2 (fst (snd (AddPath env1 p1 c w1))) w2))))
        = length (searchPaths (fst (snd (AddPath env1 p1 c w1)))))
   \<and> (fst (AddPath env1 p1 c w1) = None \<longrightarrow>
      AddPath env1 p1 (fst (snd (AddPath env1 p1 c w1))) w2
        = (None, fst (snd (AddPath env1 p1 c w1)), w2))"
proof -
  have inv_new: "pathSetOk (fst (runPathCmds ops (New env file w)))"
    by (rule pathSetOk_runPathCmds) (rule pathSetOk_New)
  have inv_any: "pathSetOk c \<longrightarrow> pathSetOk (fst (runPathCmds ops (c, w)))"
    by (simp add: pathSetOk_runPathCmds)
  have again: "AddPath e2 q (fst (snd (AddPath env1 p1 c w1))) w2
        = (None, fst (snd (AddPath env1 p1 c w1)), w2)"
    if ok: "fst (AddPath env1 p1 c w1) = None"
      and same: "resolvePath e2 (fst (snd (AddPath env1 p1 c w1))) q = resolvePath env1 c p1"
    for e2 q
  proof -
    let ?c1 = "fst (snd (AddPath env1 p1 c w1))"
    let ?rp = "fst (resolvePath env1 c p1)"
    from AddPath_success [OF ok]
    have r: "?rp \<noteq> ''''" "snd (resolvePath env1 c p1)" "?rp \<in> set (searchPaths ?c1)"
      by simp_all
    from same r have "resolvePath e2 ?c1 q = (?rp, True)"
      by (metis prod.collapse)
    then show ?thesis using r(1,3) by (rule AddPath_known_dir)
  qed
  have twice: "fst (AddPath env1 p1 c w1) = None \<longrightarrow>
      AddPath env1 p1 (fst (snd (AddPath env1 p1 c w1))) w2
        = (None, fst (snd (AddPath env1 p1 c w1)), w2)"
    using again [of env1 p1] by (simp add: resolvePath_after_AddPath)
  from inv_new inv_any again [of env2 p2] twice show ?thesis by simp
qed


text \<open>
  From \<open>[/a]\<close>: a run of five operations keeps the set clean; after \<open>AddPath(/a/sub)\<close>,
  both \<open>AddPath(sub)\<close> (found under \<open>/a\<close>) and \<open>AddPath(/a/sub)\<close> again succeed and the set
  keeps its two entries.
\<close>

theorem search_path_set_invariant_witness:
  "pathSetOk cA
   \<and> pathSetOk (fst (runPathCmds
        [(envFS, CmdAddPath ''/b''), (envFS, CmdAddPath ''/b''), (envFS, CmdSetPath ''/m''),
         (envFS, CmdAddPath ''/nope''), (envFS, CmdAddPath ''/a'')] (cA, w0)))
   \<and> fst (AddPath envFS ''/a/sub'' cA w0) = None
   \<and> resolvePath envFS (fst (snd (AddPath envFS ''/a/sub'' cA w0))) ''sub''
       = resolvePath envFS cA ''/a/sub''
   \<and> fst (AddPath envFS ''sub'' (fst (snd (AddPath envFS ''/a/sub'' cA w0))) w0) = None
   \<and> length (searchPaths
        (fst (snd (AddPath envFS ''sub'' (fst (snd (AddPath envFS ''/a/sub'' cA w0))) w0)))) = 2
   \<and> length (searchPaths (fst (snd (AddPath envFS ''/a/sub'' cA w0)))) = 2
   \<and> fst (AddPath envFS ''/a/sub'' (fst (snd (AddPath envFS ''/a/sub'' cA w0))) w0) = None"
proof -
  let ?ops = "[(envFS, CmdAddPath ''/b''), (envFS, CmdAddPath ''/b''), (envFS, CmdSetPath ''/m''),
         (envFS, CmdAddPath ''/nope''), (envFS, CmdAddPath ''/a'')]"
  have h1: "pathSetOk cA" by code_simp
  have h2: "fst (AddPath envFS ''/a/sub'' cA w0) = None" by code_simp
  have h3: "resolvePath envFS (fst (snd (AddPath envFS ''/a/sub'' cA w0))) ''sub''
       = resolvePath envFS cA ''/a/sub''" by code_simp
  have h4: "length (searchPaths (fst (snd (AddPath envFS ''/a/sub'' cA w0)))) = 2" by code_simp
  note t = search_path_set_invariant [of ?ops envFS "[]" w0 cA envFS "''/a/sub''" w0 envFS "''sub''" w0]
  from t h1 have "pathSetOk (fst (runPathCmds ?ops (cA, w0)))" by blast
  moreover from t h2 h3 h4 have
    "fst (AddPath envFS ''sub'' (fst (snd (AddPath envFS ''/a/sub'' cA w0))) w0) = None
     \<and> length (searchPaths
        (fst (snd (AddPath envFS ''sub'' (fst (snd (AddPath envFS ''/a/sub'' cA w0))) w0)))) = 2"
    by simp
  moreover from t h2 have
    "fst (AddPath envFS ''/a/sub'' (fst (snd (AddPath envFS ''/a/sub'' cA w0))) w0) = None"
    by simp
  ultimately show ?thesis using h1 h2 h3 h4 by blast
qed

subsection \<open>C10: New and the custom root path\<close>

text \<open>
  Claim C10. Let the option \<open>gf.gcfg.path\<close> be set. If it names an existing entry for
  which \<open>SetPath\<close> returns an error (not a usable directory), \<open>New\<close> drops the error
  silently: it returns exactly the state \<open>SetPath\<close> left, which is the initial object
  with an empty search path set, and adds no report of its own (with error printing
  off nothing is logged at all; with it on, the one line is \<open>SetPath\<close>'s). The default
  discovery (main package directory, directory of the binary, working directory) is
  not applied then, nor when the option names a path that does not exist, which is
  only reported: it is applied only when there is no custom path at all, that is, when
  the option is empty.
\<close>

theorem New_custom_path:
  "(gcmd_GetOptWithEnv env (cmdEnvKey @ ''.path'') \<noteq> ''''
      \<and> gfile_Exists env (gcmd_GetOptWithEnv env (cmdEnvKey @ ''.path''))
      \<and> fst (SetPath env (gcmd_GetOptWithEnv env (cmdEnvKey @ ''.path''))
                (initialConfig env file) w) = Some err
    \<longrightarrow> fst (New env file w) = initialConfig env file
        \<and> searchPaths (fst (New env file w)) = []
        \<and> snd (New env file w) = (if errorPrint env then w\<lparr>glog := glog w @ [GlogError err]\<rparr>
                                   else w))
   \<and> (gcmd_GetOptWithEnv env (cmdEnvKey @ ''.path'') \<noteq> ''''
      \<and> \<not> gfile_Exists env (gcmd_GetOptWithEnv env (cmdEnvKey @ ''.path''))
    \<longrightarrow> New env file w =
          (initialConfig env file,
           glog_Error env (GlogConfigDirNotExist (gcmd_GetOptWithEnv env (cmdEnvKey @ ''.path''))) w)
        \<and> searchPaths (fst (New env file w)) = [])
   \<and> (gcmd_GetOptWithEnv env (cmdEnvKey @ ''.path'') \<noteq> ''''
      \<and> gfile_Exists env (gcmd_GetOptWithEnv env (cmdEnvKey @ ''.path''))
    \<longrightarrow> New env file w
          = snd (SetPath env (gcmd_GetOptWithEnv env (cmdEnvKey @ ''.path''))
                   (initialConfig env file) w))
   \<and> (gcmd_GetOptWithEnv env (cmdEnvKey @ ''.path'') = ''''
    \<longrightarrow> New env file w = defaultPaths env (initialConfig env file) w)"
proof -
  let ?p = "gcmd_GetOptWithEnv env (cmdEnvKey @ ''.path'')"
  let ?c = "initialConfig env file"
  have empty: "searchPaths ?c = []"
    by (simp add: initialConfig_def Let_def)
  have custom: "New env file w = snd (SetPath env ?p ?c w)"
    if "?p \<noteq> ''''" and "gfile_Exists env ?p"
    using that by (simp add: New_def Let_def)
  have failed: "fst (New env file w) = ?c \<and> searchPaths (fst (New env file w)) = []
        \<and> snd (New env file w) = (if errorPrint env then w\<lparr>glog := glog w @ [GlogError err]\<rparr>
                                   else w)"
    if p: "?p \<noteq> ''''" and x: "gfile_Exists env ?p" and e: "fst (SetPath env ?p ?c w) = Some err"
  proof -
    from e have "fst (SetPath env ?p ?c w) \<noteq> None" by simp
    then have k: "fst (snd (SetPath env ?p ?c w)) = ?c" by (rule SetPath_error_keeps)
    from e have l: "snd (snd (SetPath env ?p ?c w)) = glog_Error env (GlogError err) w"
      by (rule SetPath_error_world)
    from custom [OF p x] k l empty show ?thesis by (simp add: glog_Error_def)
  qed
  have missing: "New env file w = (?c, glog_Error env (GlogConfigDirNotExist ?p) w)
        \<and> searchPaths (fst (New env file w)) = []"
    if "?p \<noteq> ''''" and "\<not> gfile_Exists env ?p"
    using that empty by (simp add: New_def Let_def)
  have default: "New env file w = defaultPaths env ?c w" if "?p = ''''"
    using that by (simp add: New_def Let_def)
  from failed missing custom default show ?thesis by blast
qed

text \<open>
  Started in \<open>/w\<close>: with the option naming the file \<open>/a/notes.txt\<close>, \<open>SetPath\<close> answers that
  the path should be a directory, the set stays empty and the log holds that one line
  of \<open>SetPath\<close>; with the option naming \<open>/nope\<close> the set stays empty as well, although
  the default discovery gives \<open>[/w]\<close> there; with no option the set is \<open>[/w]\<close>.
\<close>

theorem New_custom_path_witness:
  "gcmd_GetOptWithEnv envCustomFile (cmdEnvKey @ ''.path'') = ''/a/notes.txt''
   \<and> gfile_Exists envCustomFile ''/a/notes.txt''
   \<and> fst (SetPath envCustomFile ''/a/notes.txt'' (initialConfig envCustomFile []) w0)
       = Some (ShouldBeDirectory ''SetPath'' ''/a/notes.txt'')
   \<and> searchPaths (fst (New envCustomFile [] w0)) = []
   \<and> snd (New envCustomFile [] w0)
       = w0\<lparr>glog := [GlogError (ShouldBeDirectory ''SetPath'' ''/a/notes.txt'')]\<rparr>
   \<and> searchPaths (fst (defaultPaths envCustomFile (initialConfig envCustomFile []) w0))
       = [''/w'']
   \<and> gcmd_GetOptWithEnv envCustomMissing (cmdEnvKey @ ''.path'') = ''/nope''
   \<and> \<not> gfile_Exists envCustomMissing ''/nope''
   \<and> searchPaths (fst (New envCustomMissing [] w0)) = []
   \<and> searchPaths (fst (defaultPaths envCustomMissing (initialConfig envCustomMissing []) w0))
       = [''/w'']
   \<and> gcmd_GetOptWithEnv envStartW (cmdEnvKey @ ''.path'') = ''''
   \<and> searchPaths (fst (New envStartW [] w0)) = [''/w'']"
proof -
  have a1: "gcmd_GetOptWithEnv envCustomFile (cmdEnvKey @ ''.path'') = ''/a/notes.txt''"
    by code_simp
  have a2: "gfile_Exists envCustomFile ''/a/notes.txt''" by code_simp
  have a3: "fst (SetPath envCustomFile ''/a/notes.txt'' (initialConfig envCustomFile []) w0)
       = Some (ShouldBeDirectory ''SetPath'' ''/a/notes.txt'')" by code_simp
  have a4: "errorPrint envCustomFile" by code_simp
  have a5: "searchPaths (fst (defaultPaths envCustomFile (initialConfig envCustomFile []) w0))
       = [''/w'']" by code_simp
  have b1: "gcmd_GetOptWithEnv envCustomMissing (cmdEnvKey @ ''.path'') = ''/nope''"
    by code_simp
  have b2: "\<not> gfile_Exists envCustomMissing ''/nope''" by code_simp
  have b3: "searchPaths (fst (defaultPaths envCustomMissing (initialConfig envCustomMissing []) w0))
       = [''/w'']" by code_simp
  have c1: "gcmd_GetOptWithEnv envStartW (cmdEnvKey @ ''.path'') = ''''" by code_simp
  have c2: "searchPaths (fst (defaultPaths envStartW (initialConfig envStartW []) w0)) = [''/w'']"
    by code_simp
  have ne: "''/a/notes.txt'' \<noteq> []" "''/nope'' \<noteq> []" by simp_all
  have g: "glog w0 = []" by (simp add: w0_def)
  note t = New_custom_path [of envCustomFile "[]" w0
             "ShouldBeDirectory ''SetPath'' ''/a/notes.txt''", unfolded a1]
  from t a2 a3 ne
  have r1: "searchPaths (fst (New envCustomFile [] w0)) = []" by blast
  from t a2 a3 ne
  have "snd (New envCustomFile [] w0)
          = (if errorPrint envCustomFile
             then w0\<lparr>glog := glog w0 @ [GlogError (ShouldBeDirectory ''SetPath'' ''/a/notes.txt'')]\<rparr>
             else w0)" by blast
  with a4 g have r1': "snd (New envCustomFile [] w0)
       = w0\<lparr>glog := [GlogError (ShouldBeDirectory ''SetPath'' ''/a/notes.txt'')]\<rparr>"
    by simp
  from New_custom_path [of envCustomMissing "[]" w0, unfolded b1] b2 ne
  have r2: "searchPaths (fst (New envCustomMissing [] w0)) = []" by blast
  from New_custom_path [of envStartW "[]" w0, unfolded c1]
  have "New envStartW [] w0 = defaultPaths envStartW (initialConfig envStartW []) w0" by blast
  with c2 have r3: "searchPaths (fst (New envStartW [] w0)) = [''/w'']" by simp
  from a1 a2 a3 a5 b1 b2 b3 c1 r1 r1' r2 r3 show ?thesis by simp
qed

end
